theory Spec2Isabelle
  imports Complex_Main "HOL-Library.Word" "HOL-Library.Multiset"
begin

unbundle bit_operations_syntax


section \<open>Numbers, failures and cosineSimilarity\<close>

text \<open>
  The matching engine and the embedding utilities compute with JavaScript numbers. They are
  modelled as \<^typ>\<open>real\<close>: arithmetic is exact, there is no rounding, no overflow and no
  underflow. Every division of the matching engine is guarded in the source
  (\<open>magnitude === 0 ? 0 : ...\<close>) or has a non-zero constant divisor, so the convention
  \<open>x / 0 = 0\<close> of HOL is never relied on there.

  A rejected promise or a thrown \<open>Error\<close> is an element of \<open>error + 'a\<close>, \<open>Inl\<close> being the
  failure.
\<close>

datatype error =
    DimensionMismatch nat nat  \<comment> \<open>\<open>Vector dimension mismatch: ${a.length} vs ${b.length}\<close>\<close>
  | ProviderFailure            \<comment> \<open>the embedding provider rejected\<close>
  | StoreFailure               \<comment> \<open>a store query rejected\<close>

text \<open>
  The loop of \<open>cosineSimilarity\<close> runs over the indices of \<open>a\<close> and updates the three
  accumulators \<open>dotProduct\<close>, \<open>normA\<close> and \<open>normB\<close>.
\<close>

definition cosine_loop :: "real list \<Rightarrow> real list \<Rightarrow> real \<times> real \<times> real" where
  "cosine_loop a b =
     fold (\<lambda>i (dotProduct, normA, normB).
             (dotProduct + a ! i * b ! i, normA + a ! i * a ! i, normB + b ! i * b ! i))
          [0..<length a] (0, 0, 0)"

definition cosineSimilarity :: "real list \<Rightarrow> real list \<Rightarrow> error + real" where
  "cosineSimilarity a b =
     (if length a \<noteq> length b then Inl (DimensionMismatch (length a) (length b))
      else (case cosine_loop a b of (dotProduct, normA, normB) \<Rightarrow>
              (let magnitude = sqrt normA * sqrt normB
               in Inr (if magnitude = 0 then 0 else dotProduct / magnitude))))"

text \<open>The mathematical notions the specification uses: dot product and Euclidean norm.\<close>

definition dot :: "real list \<Rightarrow> real list \<Rightarrow> real" where
  "dot a b = (\<Sum>(u, v) \<leftarrow> zip a b. u * v)"

definition sumsq :: "real list \<Rightarrow> real" where
  "sumsq a = (\<Sum>u \<leftarrow> a. u * u)"

definition euclid_norm :: "real list \<Rightarrow> real" where
  "euclid_norm a = sqrt (sumsq a)"

section \<open>The mock embedding provider\<close>

text \<open>
  A JavaScript string is a sequence of UTF-16 code units, here natural numbers below 65536;
  \<open>charCodeAt\<close> reads one. In \<open>hashString\<close> the shift and the final \<open>hash & hash\<close> bring the
  result back to a signed 32-bit integer; the subtraction and the addition in between are
  exact, so the iteration is arithmetic on 32-bit words, read signed at the end.
\<close>

definition hash_step :: "nat \<Rightarrow> 32 word \<Rightarrow> 32 word" where
  "hash_step char hash = (let h = (push_bit 5 hash - hash) + of_nat char in h AND h)"

definition hashString :: "nat list \<Rightarrow> int" where
  "hashString str = sint (fold hash_step str 0)"

text \<open>
  \<open>seededRandom\<close>: \<open>state * 1103515245 + 12345\<close> is computed on doubles. Both factors are
  integers below \<open>2 ^ 32\<close> in size, but their product can need more than 53 bits, so the
  product and then the sum are rounded to the nearest double, ties to even; \<open>& 0x7fffffff\<close>
  takes the result modulo \<open>2 ^ 32\<close> and keeps the low 31 bits.
\<close>

fun bit_length :: "nat \<Rightarrow> nat" where
  "bit_length n = (if n = 0 then 0 else Suc (bit_length (n div 2)))"

declare bit_length.simps [simp del]

definition round_to_double :: "int \<Rightarrow> int" where
  "round_to_double n =
     (let m = nat \<bar>n\<bar>;
          e = bit_length m - 53;
          q = m div 2 ^ e;
          r = m mod 2 ^ e;
          q' = (if 2 ^ e < 2 * r \<or> (2 * r = 2 ^ e \<and> odd q) then q + 1 else q)
      in sgn n * int (q' * 2 ^ e))"

definition seededRandom_next :: "int \<Rightarrow> int" where
  "seededRandom_next state =
     uint ((word_of_int (round_to_double (round_to_double (state * 1103515245) + 12345))
              :: 32 word) AND 0x7fffffff)"

text \<open>
  The loop of \<open>generate\<close>: each call of \<open>random()\<close> advances the state and returns
  \<open>state / 0x7fffffff\<close>; the component pushed is \<open>random() * 2 - 1\<close>.
\<close>

fun mock_components :: "nat \<Rightarrow> int \<Rightarrow> real list" where
  "mock_components 0 state = []"
| "mock_components (Suc n) state =
     (let state' = seededRandom_next state
      in (real_of_int state' / 0x7fffffff * 2 - 1) # mock_components n state')"

text \<open>
  \<open>MockProvider.generate\<close>. \<open>toLowerCase\<close> and \<open>trim\<close> are the built-in methods of the host's
  strings (Unicode case mapping and white space); they are parameters here. The fractional
  arithmetic is on reals. The divisor \<open>magnitude\<close> is proved to be positive below.
\<close>

definition MockProvider_dimensions :: nat where
  "MockProvider_dimensions = 384"

definition MockProvider_generate ::
  "(nat list \<Rightarrow> nat list) \<Rightarrow> (nat list \<Rightarrow> nat list) \<Rightarrow> nat list \<Rightarrow> real list" where
  "MockProvider_generate toLowerCase trim text =
     (let seed = hashString (trim (toLowerCase text));
          embedding = mock_components MockProvider_dimensions seed;
          magnitude = sqrt (fold (\<lambda>val sum. sum + val * val) embedding 0)
      in map (\<lambda>val. val / magnitude) embedding)"

text \<open>The built-ins on ASCII text, for the examples: letters A to Z, and the space.\<close>

definition ascii_toLowerCase :: "nat list \<Rightarrow> nat list" where
  "ascii_toLowerCase s = map (\<lambda>c. if 65 \<le> c \<and> c \<le> 90 then c + 32 else c) s"

definition ascii_trim :: "nat list \<Rightarrow> nat list" where
  "ascii_trim s = rev (dropWhile (\<lambda>c. c = 32) (rev (dropWhile (\<lambda>c. c = 32) s)))"

section \<open>The hybrid candidate search\<close>

text \<open>
  The entities of \<open>SkillTypes\<close>, with the fields the search reads. An optional field
  (\<open>embedding?: number[]\<close>) is an \<open>option\<close>. The date fields \<open>created\<close> and \<open>updated\<close>
  are left out: \<open>processRecord\<close> rewrites only them, so it is the identity on the records
  below. Field names that two records share in the source carry the record's name here.
\<close>

record Skill =
  skill_id :: string
  skill_name :: string
  skill_embedding :: "real list option"

record Employee =
  employee_id :: string
  employee_name :: string
  department :: string
  employee_embedding :: "real list option"

record HasSkillEdge =
  edge_in :: string
  edge_out :: string
  proficiency :: real
  certified :: bool

record SearchFilters =
  filter_department :: "string option"

record SemanticSearchQuery =
  query :: string
  filters :: "SearchFilters option"
  limit :: "int option"

record ScoredSkill =
  skill :: Skill
  relevance :: real

record MatchedSkill =
  matched_skill :: Skill
  matched_proficiency :: real
  matched_relevance :: real

record CandidateMatch =
  employee :: Employee
  matchScore :: real
  matchedSkills :: "MatchedSkill list"
  semanticScore :: real
  graphScore :: real

record SearchResult =
  candidates :: "CandidateMatch list"
  queryEmbedding :: "real list option"
  totalMatches :: nat
  processingTimeMs :: int

text \<open>
  The store is reached through \<open>surreal.query\<close> followed by \<open>extractQueryResult\<close>. The
  three queries of the search are \<open>SELECT * FROM skill\<close>, \<open>SELECT * FROM employee\<close> with an
  optional \<open>WHERE department = $department\<close>, and
  \<open>SELECT * FROM has_skill WHERE in = $empId\<close>. The environment gives the rows each one
  extracts, or the failure it rejects with, and the two readings of \<open>Date.now()\<close>. The
  search returns the queries it issued, in order, next to its result.
\<close>

datatype store_query =
    SelectSkill
  | SelectEmployee "string option"
  | SelectHasSkill string

record environment =
  generateEmbedding :: "string \<Rightarrow> error + real list"
  select_skill :: "error + Skill list"
  select_employee :: "string option \<Rightarrow> error + Employee list"
  select_has_skill :: "string \<Rightarrow> error + HasSkillEdge list"
  startTime :: int
  endTime :: int

text \<open>
  \<open>xs.sort((a, b) => f(b) - f(a))\<close>: \<open>Array.prototype.sort\<close> is stable, so this is the
  stable sort by descending \<open>f\<close>. \<open>xs.slice(0, n)\<close> counts a negative \<open>n\<close> from the end.
\<close>

definition sort_desc :: "('a \<Rightarrow> real) \<Rightarrow> 'a list \<Rightarrow> 'a list" where
  "sort_desc f xs = sort_key (\<lambda>x. - f x) xs"

definition slice0 :: "int \<Rightarrow> 'a list \<Rightarrow> 'a list" where
  "slice0 n xs = (if n < 0 then take (nat (int (length xs) + n)) xs else take (nat n) xs)"

text \<open>
  Step 2 of the search: the relevance of every fetched skill, in order (\<open>map\<close> stops at
  the first \<open>cosineSimilarity\<close> that throws), then \<open>filter\<close>, \<open>sort\<close> and \<open>slice(0, 15)\<close>.
  An array is truthy in JavaScript even when empty, so \<open>skill.embedding ? ... : 0.3\<close>
  takes the default only for an absent embedding.
\<close>

definition skill_relevance :: "real list \<Rightarrow> Skill \<Rightarrow> error + real" where
  "skill_relevance qEmb s =
     (case skill_embedding s of
        Some v \<Rightarrow> cosineSimilarity qEmb v
      | None \<Rightarrow> Inr 0.3)"

fun score_skills :: "real list \<Rightarrow> Skill list \<Rightarrow> error + ScoredSkill list" where
  "score_skills qEmb [] = Inr []"
| "score_skills qEmb (s # ss) =
     (case skill_relevance qEmb s of
        Inl e \<Rightarrow> Inl e
      | Inr r \<Rightarrow>
          (case score_skills qEmb ss of
             Inl e \<Rightarrow> Inl e
           | Inr rest \<Rightarrow> Inr (\<lparr>skill = s, relevance = r\<rparr> # rest)))"

definition relevant_skills :: "real list \<Rightarrow> Skill list \<Rightarrow> error + ScoredSkill list" where
  "relevant_skills qEmb allSkills =
     (case score_skills qEmb allSkills of
        Inl e \<Rightarrow> Inl e
      | Inr scored \<Rightarrow>
          Inr (take 15 (sort_desc relevance (filter (\<lambda>s. relevance s > 0.4) scored))))"

text \<open>
  Step 4: one iteration of the loop over \<open>empSkills\<close>, on the pair of \<open>matchedSkills\<close> and
  \<open>graphScore\<close>; then the loop over the employees, which awaits one \<open>has_skill\<close> query per
  employee and appends to \<open>candidates\<close>.
\<close>

definition score_edge ::
  "ScoredSkill list \<Rightarrow> HasSkillEdge \<Rightarrow> MatchedSkill list \<times> real \<Rightarrow> MatchedSkill list \<times> real" where
  "score_edge relevantSkills empSkill acc =
     (case acc of (matched, graph) \<Rightarrow>
        (case find (\<lambda>rs. skill_id (skill rs) = edge_out empSkill) relevantSkills of
           None \<Rightarrow> (matched, graph)
         | Some relevantSkill \<Rightarrow>
             (matched @ [\<lparr>matched_skill = skill relevantSkill,
                          matched_proficiency = proficiency empSkill,
                          matched_relevance = relevance relevantSkill\<rparr>],
              (let g = graph + (proficiency empSkill / 5) * relevance relevantSkill
               in if certified empSkill then g + 0.1 else g))))"

definition employee_semantic :: "real list \<Rightarrow> Employee \<Rightarrow> error + real" where
  "employee_semantic qEmb emp =
     (case employee_embedding emp of
        Some v \<Rightarrow> cosineSimilarity qEmb v
      | None \<Rightarrow> Inr 0.5)"

fun scan_employees ::
  "environment \<Rightarrow> real list \<Rightarrow> ScoredSkill list \<Rightarrow> Employee list \<Rightarrow>
   store_query list \<times> CandidateMatch list \<Rightarrow> store_query list \<times> (error + CandidateMatch list)" where
  "scan_employees env qEmb relevantSkills [] (issued, cands) = (issued, Inr cands)"
| "scan_employees env qEmb relevantSkills (emp # emps) (issued, cands) =
     (case select_has_skill env (employee_id emp) of
        Inl e \<Rightarrow> (issued @ [SelectHasSkill (employee_id emp)], Inl e)
      | Inr empSkills \<Rightarrow>
          (case fold (score_edge relevantSkills) empSkills ([], 0) of
             (matched, graph) \<Rightarrow>
               if length matched > 0 then
                 (case employee_semantic qEmb emp of
                    Inl e \<Rightarrow> (issued @ [SelectHasSkill (employee_id emp)], Inl e)
                  | Inr semantic \<Rightarrow>
                      scan_employees env qEmb relevantSkills emps
                        (issued @ [SelectHasSkill (employee_id emp)],
                         cands @ [\<lparr>employee = emp,
                                    matchScore = (graph * 0.6) + (semantic * 0.4),
                                    matchedSkills = sort_desc matched_relevance matched,
                                    semanticScore = semantic,
                                    graphScore = graph\<rparr>]))
               else
                 scan_employees env qEmb relevantSkills emps
                   (issued @ [SelectHasSkill (employee_id emp)], cands)))"

text \<open>
  \<open>filters?.department\<close> is tested for truthiness: an absent filter, an absent department
  and the empty string add no condition. \<open>limit\<close> defaults to 10 when absent.
\<close>

definition department_param :: "SemanticSearchQuery \<Rightarrow> string option" where
  "department_param searchQuery =
     (case filters searchQuery of
        None \<Rightarrow> None
      | Some f \<Rightarrow>
          (case filter_department f of
             None \<Rightarrow> None
           | Some d \<Rightarrow> if d = [] then None else Some d))"

definition limit_param :: "SemanticSearchQuery \<Rightarrow> int" where
  "limit_param searchQuery = (case limit searchQuery of None \<Rightarrow> 10 | Some l \<Rightarrow> l)"

text \<open>
  The body of the \<open>try\<close> block of \<open>mutationFn\<close>, and \<open>useCandidateSearch\<close> with its
  \<open>catch\<close>, which logs and returns the empty result.
\<close>

definition search_try ::
  "environment \<Rightarrow> SemanticSearchQuery \<Rightarrow> store_query list \<times> (error + SearchResult)" where
  "search_try env searchQuery =
     (case generateEmbedding env (query searchQuery) of
        Inl e \<Rightarrow> ([], Inl e)
      | Inr qe \<Rightarrow>
          (case select_skill env of
             Inl e \<Rightarrow> ([SelectSkill], Inl e)
           | Inr allSkills \<Rightarrow>
               (case relevant_skills qe allSkills of
                  Inl e \<Rightarrow> ([SelectSkill], Inl e)
                | Inr relevantSkills \<Rightarrow>
                    if length relevantSkills = 0 then
                      ([SelectSkill],
                       Inr \<lparr>candidates = [], queryEmbedding = Some qe, totalMatches = 0,
                            processingTimeMs = endTime env - startTime env\<rparr>)
                    else
                      (let asked = [SelectSkill, SelectEmployee (department_param searchQuery)]
                       in case select_employee env (department_param searchQuery) of
                         Inl e \<Rightarrow> (asked, Inl e)
                       | Inr employees \<Rightarrow>
                           (case scan_employees env qe relevantSkills employees (asked, []) of
                              (issued, Inl e) \<Rightarrow> (issued, Inl e)
                            | (issued, Inr cands) \<Rightarrow>
                                (let ranked = sort_desc matchScore cands
                                 in (issued,
                                     Inr \<lparr>candidates = slice0 (limit_param searchQuery) ranked,
                                          queryEmbedding = Some qe,
                                          totalMatches = length ranked,
                                          processingTimeMs = endTime env - startTime env\<rparr>)))))))"

definition useCandidateSearch ::
  "environment \<Rightarrow> SemanticSearchQuery \<Rightarrow> store_query list \<times> SearchResult" where
  "useCandidateSearch env searchQuery =
     (case search_try env searchQuery of
        (issued, Inr result) \<Rightarrow> (issued, result)
      | (issued, Inl e) \<Rightarrow>
          (issued, \<lparr>candidates = [], queryEmbedding = None, totalMatches = 0,
                 processingTimeMs = endTime env - startTime env\<rparr>))"

text \<open>
  The notions of the specification: the edges of an employee whose skill is in the relevant
  set, the relevance the relevant set gives a skill id, and the graph score as a sum over the
  matched edges.
\<close>

definition matched_edges :: "ScoredSkill list \<Rightarrow> HasSkillEdge list \<Rightarrow> HasSkillEdge list" where
  "matched_edges relevantSkills empSkills =
     filter (\<lambda>e. edge_out e \<in> set (map (\<lambda>rs. skill_id (skill rs)) relevantSkills)) empSkills"

definition relevance_of :: "ScoredSkill list \<Rightarrow> string \<Rightarrow> real" where
  "relevance_of relevantSkills sid =
     (case find (\<lambda>rs. skill_id (skill rs) = sid) relevantSkills of
        Some rs \<Rightarrow> relevance rs
      | None \<Rightarrow> 0)"

definition graph_score_spec :: "ScoredSkill list \<Rightarrow> HasSkillEdge list \<Rightarrow> real" where
  "graph_score_spec relevantSkills empSkills =
     (\<Sum>e \<leftarrow> matched_edges relevantSkills empSkills.
        (proficiency e / 5) * relevance_of relevantSkills (edge_out e)
        + (if certified e then 0.1 else 0))"

definition matched_detail :: "ScoredSkill list \<Rightarrow> HasSkillEdge \<Rightarrow> MatchedSkill" where
  "matched_detail relevantSkills e =
     \<lparr>matched_skill = skill (the (find (\<lambda>rs. skill_id (skill rs) = edge_out e) relevantSkills)),
      matched_proficiency = proficiency e,
      matched_relevance = relevance_of relevantSkills (edge_out e)\<rparr>"

text \<open>
  An employee has a match when the store returns an edge of theirs to a relevant skill;
  \<open>scored_as\<close> says that a candidate carries the scores of its employee.
\<close>

definition has_match :: "environment \<Rightarrow> ScoredSkill list \<Rightarrow> Employee \<Rightarrow> bool" where
  "has_match env relevantSkills emp =
     (case select_has_skill env (employee_id emp) of
        Inr empSkills \<Rightarrow> matched_edges relevantSkills empSkills \<noteq> []
      | Inl e \<Rightarrow> False)"

definition scored_as ::
  "environment \<Rightarrow> real list \<Rightarrow> ScoredSkill list \<Rightarrow> CandidateMatch \<Rightarrow> bool" where
  "scored_as env qEmb relevantSkills c =
     (\<exists>empSkills.
        select_has_skill env (employee_id (employee c)) = Inr empSkills \<and>
        matched_edges relevantSkills empSkills \<noteq> [] \<and>
        employee_semantic qEmb (employee c) = Inr (semanticScore c) \<and>
        graphScore c = graph_score_spec relevantSkills empSkills \<and>
        matchScore c = graphScore c * 0.6 + semanticScore c * 0.4 \<and>
        matchedSkills c =
          sort_desc matched_relevance
            (map (matched_detail relevantSkills) (matched_edges relevantSkills empSkills)))"

section \<open>Example stores\<close>

text \<open>
  A small store for the examples: the query embedding is \<open>[1, 0]\<close>; Python and Machine
  Learning are relevant (1 and 4/5), Coq was never embedded and Go is orthogonal to the query.
  Ann holds the two relevant skills, Bob holds Python and Coq, Cy holds only Coq.
\<close>

definition python_skill :: Skill where
  "python_skill =
     \<lparr>skill_id = ''s1'', skill_name = ''Python'', skill_embedding = Some [1, 0]\<rparr>"

definition learning_skill :: Skill where
  "learning_skill =
     \<lparr>skill_id = ''s2'', skill_name = ''Machine Learning'', skill_embedding = Some [4, 3]\<rparr>"

definition coq_skill :: Skill where
  "coq_skill = \<lparr>skill_id = ''s3'', skill_name = ''Coq'', skill_embedding = None\<rparr>"

definition go_skill :: Skill where
  "go_skill = \<lparr>skill_id = ''s4'', skill_name = ''Go'', skill_embedding = Some [0, 1]\<rparr>"

definition ann_employee :: Employee where
  "ann_employee =
     \<lparr>employee_id = ''e1'', employee_name = ''Ann'', department = ''R'',
      employee_embedding = None\<rparr>"

definition bob_employee :: Employee where
  "bob_employee =
     \<lparr>employee_id = ''e2'', employee_name = ''Bob'', department = ''R'',
      employee_embedding = Some [- 1, 0]\<rparr>"

definition cy_employee :: Employee where
  "cy_employee =
     \<lparr>employee_id = ''e3'', employee_name = ''Cy'', department = ''R'',
      employee_embedding = None\<rparr>"

definition ann_edges :: "HasSkillEdge list" where
  "ann_edges =
     [\<lparr>edge_in = ''e1'', edge_out = ''s1'', proficiency = 5, certified = True\<rparr>,
      \<lparr>edge_in = ''e1'', edge_out = ''s2'', proficiency = 5, certified = True\<rparr>]"

definition bob_edges :: "HasSkillEdge list" where
  "bob_edges =
     [\<lparr>edge_in = ''e2'', edge_out = ''s3'', proficiency = 5, certified = True\<rparr>,
      \<lparr>edge_in = ''e2'', edge_out = ''s1'', proficiency = 1, certified = False\<rparr>]"

definition cy_edges :: "HasSkillEdge list" where
  "cy_edges =
     [\<lparr>edge_in = ''e3'', edge_out = ''s3'', proficiency = 5, certified = True\<rparr>]"

definition demo_env :: environment where
  "demo_env =
     \<lparr>generateEmbedding = (\<lambda>t. Inr [1, 0]),
      select_skill = Inr [learning_skill, python_skill, coq_skill, go_skill],
      select_employee = (\<lambda>d. Inr [cy_employee, bob_employee, ann_employee]),
      select_has_skill =
        (\<lambda>i. if i = ''e1'' then Inr ann_edges else if i = ''e2'' then Inr bob_edges
              else if i = ''e3'' then Inr cy_edges else Inr []),
      startTime = 100, endTime = 107\<rparr>"

definition demo_query :: SemanticSearchQuery where
  "demo_query = \<lparr>query = ''python and machine learning'', filters = None, limit = None\<rparr>"

definition demo_relevant :: "ScoredSkill list" where
  "demo_relevant =
     [\<lparr>skill = python_skill, relevance = 1\<rparr>, \<lparr>skill = learning_skill, relevance = 4 / 5\<rparr>]"

definition ann_match :: CandidateMatch where
  "ann_match =
     \<lparr>employee = ann_employee, matchScore = 7 / 5,
      matchedSkills =
        [\<lparr>matched_skill = python_skill, matched_proficiency = 5, matched_relevance = 1\<rparr>,
         \<lparr>matched_skill = learning_skill, matched_proficiency = 5,
          matched_relevance = 4 / 5\<rparr>],
      semanticScore = 1 / 2, graphScore = 2\<rparr>"

definition bob_match :: CandidateMatch where
  "bob_match =
     \<lparr>employee = bob_employee, matchScore = - 7 / 25,
      matchedSkills =
        [\<lparr>matched_skill = python_skill, matched_proficiency = 1, matched_relevance = 1\<rparr>],
      semanticScore = - 1, graphScore = 1 / 5\<rparr>"

section \<open>Outcomes and further example stores\<close>

text \<open>The result a caught failure is converted into: no candidate and a zero count.\<close>

definition empty_outcome :: "environment \<Rightarrow> SemanticSearchQuery \<Rightarrow> bool" where
  "empty_outcome env sq =
     (candidates (snd (useCandidateSearch env sq)) = [] \<and>
      totalMatches (snd (useCandidateSearch env sq)) = 0)"

text \<open>The example store with a \<open>has_skill\<close> query that rejects for Bob.\<close>

definition failing_env :: environment where
  "failing_env =
     demo_env\<lparr>select_has_skill :=
       (\<lambda>i. if i = ''e2'' then Inl StoreFailure else select_has_skill demo_env i)\<rparr>"

text \<open>The example store with no relevant skill.\<close>

definition sparse_env :: environment where
  "sparse_env = demo_env\<lparr>select_skill := Inr [coq_skill, go_skill]\<rparr>"

section \<open>The force simulation of the knowledge graph\<close>

text \<open>
  The simulation can divide by zero, so its numbers keep the values JavaScript gives such a
  division: a number is a real (arithmetic is exact, without rounding, and the sign of a
  zero is not kept), an infinity, or \<open>NaN\<close>. The operations follow IEEE 754 on these values:
  \<open>NaN\<close> is absorbing, \<open>0 * Infinity\<close>, \<open>Infinity - Infinity\<close>, \<open>0 / 0\<close> and
  \<open>Infinity / Infinity\<close> are \<open>NaN\<close>, a non-zero number divided by zero is an infinity, and
  every comparison with \<open>NaN\<close> is false. The only divisor of the simulation that can be a zero
  is a sum of squares, a positive zero.
\<close>

datatype jsnum = Num real | PosInf | NegInf | NaN

fun jneg :: "jsnum \<Rightarrow> jsnum" where
  "jneg (Num a) = Num (- a)"
| "jneg PosInf = NegInf"
| "jneg NegInf = PosInf"
| "jneg NaN = NaN"

fun jadd :: "jsnum \<Rightarrow> jsnum \<Rightarrow> jsnum" where
  "jadd (Num a) (Num b) = Num (a + b)"
| "jadd NaN b = NaN"
| "jadd a NaN = NaN"
| "jadd PosInf NegInf = NaN"
| "jadd NegInf PosInf = NaN"
| "jadd PosInf b = PosInf"
| "jadd a PosInf = PosInf"
| "jadd NegInf b = NegInf"
| "jadd a NegInf = NegInf"

definition jsub :: "jsnum \<Rightarrow> jsnum \<Rightarrow> jsnum" where
  "jsub a b = jadd a (jneg b)"

definition signed_inf :: "real \<Rightarrow> jsnum" where
  "signed_inf s = (if s = 0 then NaN else if 0 < s then PosInf else NegInf)"

fun jmul :: "jsnum \<Rightarrow> jsnum \<Rightarrow> jsnum" where
  "jmul (Num a) (Num b) = Num (a * b)"
| "jmul NaN b = NaN"
| "jmul a NaN = NaN"
| "jmul (Num a) PosInf = signed_inf a"
| "jmul (Num a) NegInf = signed_inf (- a)"
| "jmul PosInf (Num b) = signed_inf b"
| "jmul NegInf (Num b) = signed_inf (- b)"
| "jmul PosInf PosInf = PosInf"
| "jmul PosInf NegInf = NegInf"
| "jmul NegInf PosInf = NegInf"
| "jmul NegInf NegInf = PosInf"

fun jdiv :: "jsnum \<Rightarrow> jsnum \<Rightarrow> jsnum" where
  "jdiv (Num a) (Num b) = (if b = 0 then signed_inf a else Num (a / b))"
| "jdiv NaN b = NaN"
| "jdiv a NaN = NaN"
| "jdiv (Num a) PosInf = Num 0"
| "jdiv (Num a) NegInf = Num 0"
| "jdiv PosInf (Num b) = (if 0 \<le> b then PosInf else NegInf)"
| "jdiv NegInf (Num b) = (if 0 \<le> b then NegInf else PosInf)"
| "jdiv PosInf PosInf = NaN"
| "jdiv PosInf NegInf = NaN"
| "jdiv NegInf PosInf = NaN"
| "jdiv NegInf NegInf = NaN"

fun jsqrt :: "jsnum \<Rightarrow> jsnum" where
  "jsqrt (Num a) = (if a < 0 then NaN else Num (sqrt a))"
| "jsqrt PosInf = PosInf"
| "jsqrt NegInf = NaN"
| "jsqrt NaN = NaN"

fun jlt :: "jsnum \<Rightarrow> jsnum \<Rightarrow> bool" where
  "jlt (Num a) (Num b) = (a < b)"
| "jlt NaN b = False"
| "jlt a NaN = False"
| "jlt a NegInf = False"
| "jlt PosInf b = False"
| "jlt NegInf b = True"
| "jlt a PosInf = True"

definition jgt :: "jsnum \<Rightarrow> jsnum \<Rightarrow> bool" where
  "jgt a b = jlt b a"

text \<open>\<open>a || d\<close> on numbers: \<open>0\<close> and \<open>NaN\<close> are falsy.\<close>

definition js_or :: "jsnum \<Rightarrow> jsnum \<Rightarrow> jsnum" where
  "js_or a d = (if a = Num 0 \<or> a = NaN then d else a)"

text \<open>
  \<open>GraphNode\<close> and \<open>GraphEdge\<close> with the fields \<open>simulateStep\<close> reads or writes (\<open>label\<close>,
  \<open>color\<close>, \<open>radius\<close> and \<open>data\<close> are only drawn). \<open>proficiency\<close> is optional.
\<close>

datatype node_kind = EmployeeNode | SkillNode

record GraphNode =
  node_id :: string
  node_type :: node_kind
  node_x :: jsnum
  node_y :: jsnum
  node_vx :: jsnum
  node_vy :: jsnum

record GraphEdge =
  edge_source :: string
  edge_target :: string
  edge_proficiency :: "jsnum option"

text \<open>
  The contribution of one \<open>other\<close> node to \<open>(fx, fy)\<close> in the repulsion loop, and the loop
  over \<open>j\<close>, which skips \<open>i\<close>. \<open>|| 1\<close> replaces only a distance that is exactly zero (or
  \<open>NaN\<close>), and only in the divisor of the direction: \<open>force\<close> divides by \<open>distSq\<close> itself.
\<close>

definition repulsion :: "GraphNode \<Rightarrow> GraphNode \<Rightarrow> jsnum \<times> jsnum" where
  "repulsion node other =
     (let dx = jsub (node_x node) (node_x other);
          dy = jsub (node_y node) (node_y other);
          distSq = jadd (jmul dx dx) (jmul dy dy);
          dist = js_or (jsqrt distSq) (Num 1);
          repulsionStrength = Num (if node_type node = node_type other then 2500 else 1500);
          force = jdiv repulsionStrength distSq
      in (jmul (jdiv dx dist) force, jmul (jdiv dy dist) force))"

definition repulsion_loop :: "GraphNode list \<Rightarrow> nat \<Rightarrow> jsnum \<times> jsnum \<Rightarrow> jsnum \<times> jsnum" where
  "repulsion_loop nodes i acc =
     fold (\<lambda>j (fx, fy).
             if i = j then (fx, fy)
             else (case repulsion (nodes ! i) (nodes ! j) of
                     (rx, ry) \<Rightarrow> (jadd fx rx, jadd fy ry)))
          [0..<length nodes] acc"

text \<open>The contribution of one edge in the attraction loop.\<close>

definition attraction ::
  "GraphNode list \<Rightarrow> GraphNode \<Rightarrow> GraphEdge \<Rightarrow> jsnum \<times> jsnum \<Rightarrow> jsnum \<times> jsnum" where
  "attraction nodes node edge acc =
     (case acc of (fx, fy) \<Rightarrow>
        if edge_source edge = node_id node \<or> edge_target edge = node_id node then
          (let otherId = (if edge_source edge = node_id node then edge_target edge
                          else edge_source edge)
           in case find (\<lambda>n. node_id n = otherId) nodes of
                None \<Rightarrow> (fx, fy)
              | Some other \<Rightarrow>
                  (let dx = jsub (node_x other) (node_x node);
                       dy = jsub (node_y other) (node_y node);
                       dist = js_or (jsqrt (jadd (jmul dx dx) (jmul dy dy))) (Num 1);
                       targetDist =
                         jsub (Num 120)
                           (jmul (case edge_proficiency edge of
                                    None \<Rightarrow> Num 3
                                  | Some p \<Rightarrow> js_or p (Num 3)) (Num 10));
                       force = jmul (jsub dist targetDist) (Num 0.02)
                   in (jadd fx (jmul (jdiv dx dist) force),
                       jadd fy (jmul (jdiv dy dist) force))))
        else (fx, fy))"

text \<open>
  The soft bounce on one axis: the test against the margin, then the test against the far
  side, each setting the coordinate and multiplying the velocity by \<open>-0.5\<close>.
\<close>

definition bounce :: "real \<Rightarrow> real \<Rightarrow> jsnum \<times> jsnum \<Rightarrow> jsnum \<times> jsnum" where
  "bounce margin extent pv =
     (case pv of (p, v) \<Rightarrow>
        (case (if jlt p (Num margin) then (Num margin, jmul v (Num (- 0.5))) else (p, v)) of
           (p1, v1) \<Rightarrow>
             if jgt p1 (Num (extent - margin))
             then (Num (extent - margin), jmul v1 (Num (- 0.5)))
             else (p1, v1)))"

text \<open>
  One iteration of the loop over \<open>i\<close>: the node is mutated in place, so later iterations see
  its new position. The dragged node is skipped.
\<close>

definition step_node ::
  "string option \<Rightarrow> real \<Rightarrow> real \<Rightarrow> GraphEdge list \<Rightarrow> nat \<Rightarrow> GraphNode list \<Rightarrow> GraphNode list" where
  "step_node draggingNode width height edges i nodes =
     (let node = nodes ! i in
      if draggingNode = Some (node_id node) then nodes
      else
        (let centerX = width / 2;
             centerY = height / 2;
             fx0 = jmul (jsub (Num centerX) (node_x node)) (Num 0.0005);
             fy0 = jmul (jsub (Num centerY) (node_y node)) (Num 0.0005)
         in case fold (attraction nodes node) edges (repulsion_loop nodes i (fx0, fy0)) of
              (fx, fy) \<Rightarrow>
                (let vx1 = jmul (jadd (node_vx node) fx) (Num 0.85);
                     vy1 = jmul (jadd (node_vy node) fy) (Num 0.85);
                     maxVel = Num 5;
                     vel = jsqrt (jadd (jmul vx1 vx1) (jmul vy1 vy1));
                     vx2 = (if jgt vel maxVel then jmul (jdiv vx1 vel) maxVel else vx1);
                     vy2 = (if jgt vel maxVel then jmul (jdiv vy1 vel) maxVel else vy1);
                     margin = 40
                 in case bounce margin width (jadd (node_x node) vx2, vx2) of
                      (x', vx') \<Rightarrow>
                        (case bounce margin height (jadd (node_y node) vy2, vy2) of
                           (y', vy') \<Rightarrow>
                             nodes[i := node\<lparr>node_x := x', node_y := y',
                                             node_vx := vx', node_vy := vy'\<rparr>]))))"

text \<open>
  \<open>simulateStep\<close>: nothing happens on an empty node list; \<open>canvas?.width || 800\<close> and
  \<open>canvas?.height || 600\<close> give the viewport.
\<close>

definition simulateStep ::
  "string option \<Rightarrow> (nat \<times> nat) option \<Rightarrow> GraphEdge list \<Rightarrow> GraphNode list \<Rightarrow> GraphNode list" where
  "simulateStep draggingNode canvas edges nodes =
     (if length nodes = 0 then nodes
      else
        (let width = (case canvas of None \<Rightarrow> 800
                      | Some (w, h) \<Rightarrow> if w = 0 then 800 else real w);
             height = (case canvas of None \<Rightarrow> 600
                       | Some (w, h) \<Rightarrow> if h = 0 then 600 else real h)
         in fold (step_node draggingNode width height edges) [0..<length nodes] nodes))"

text \<open>A node at rest at a given position, for the examples.\<close>

definition node_at :: "string \<Rightarrow> node_kind \<Rightarrow> real \<Rightarrow> real \<Rightarrow> GraphNode" where
  "node_at i k x0 y0 =
     \<lparr>node_id = i, node_type = k, node_x = Num x0, node_y = Num y0,
      node_vx = Num 0, node_vy = Num 0\<rparr>"

text \<open>A coordinate that is a number between two bounds.\<close>

definition in_range :: "real \<Rightarrow> real \<Rightarrow> jsnum \<Rightarrow> bool" where
  "in_range lo hi p =
     (case p of
        Num a \<Rightarrow> lo \<le> a \<and> a \<le> hi
      | PosInf \<Rightarrow> False
      | NegInf \<Rightarrow> False
      | NaN \<Rightarrow> False)"

section \<open>Facts about cosineSimilarity\<close>

lemma fold_upt_three_sums:
  "fold (\<lambda>i (d, p, q). (d + f i, p + g i, q + h i)) [0..<n] (d0, p0, q0)
     = (d0 + (\<Sum>i<n. f i), p0 + (\<Sum>i<n. g i), q0 + (\<Sum>i<n. h i :: real))"
  by (induction n) (simp_all add: algebra_simps)

lemma sum_list_zip_nth:
  "length a = length b \<Longrightarrow>
     (\<Sum>(u, v) \<leftarrow> zip a b. f u v) = (\<Sum>i<length a. f (a ! i) (b ! i) :: real)"
proof (induction a b rule: list_induct2)
  case Nil
  then show ?case by simp
next
  case (Cons u us v vs)
  have "(\<Sum>i<Suc (length us). f ((u # us) ! i) ((v # vs) ! i))
        = f u v + (\<Sum>i<length us. f (us ! i) (vs ! i))"
    by (subst sum.lessThan_Suc_shift) simp
  with Cons show ?case by simp
qed

lemma sum_list_nth: "(\<Sum>u \<leftarrow> a. f u) = (\<Sum>i<length a. f (a ! i) :: real)"
  using sum_list_zip_nth [of a a "\<lambda>u v. f u"] by (simp add: zip_same_conv_map comp_def)

lemma cosine_loop_sums:
  assumes "length a = length b"
  shows "cosine_loop a b = (dot a b, sumsq a, sumsq b)"
proof -
  have "cosine_loop a b =
          ((\<Sum>i<length a. a ! i * b ! i), (\<Sum>i<length a. a ! i * a ! i),
           (\<Sum>i<length a. b ! i * b ! i))"
    unfolding cosine_loop_def
    using fold_upt_three_sums [of "\<lambda>i. a ! i * b ! i" "\<lambda>i. a ! i * a ! i"
        "\<lambda>i. b ! i * b ! i" "length a" 0 0 0]
    by simp
  then show ?thesis
    using assms
    by (simp add: dot_def sumsq_def sum_list_zip_nth sum_list_nth [of "\<lambda>u. u * u"])
qed

lemma cosineSimilarity_eq:
  "cosineSimilarity a b =
     (if length a \<noteq> length b then Inl (DimensionMismatch (length a) (length b))
      else if euclid_norm a = 0 \<or> euclid_norm b = 0 then Inr 0
      else Inr (dot a b / (euclid_norm a * euclid_norm b)))"
  by (simp add: cosineSimilarity_def cosine_loop_sums euclid_norm_def)



lemma sumsq_nonneg: "0 \<le> sumsq a"
  unfolding sumsq_def by (induction a) simp_all

lemma two_product_le:
  fixes t u v :: real
  assumes "t\<^sup>2 \<le> u * v" "0 \<le> u" "0 \<le> v"
  shows "2 * t \<le> u + v"
proof -
  have "(u - v)\<^sup>2 \<ge> 0" by simp
  then have "4 * (u * v) \<le> (u + v)\<^sup>2"
    by (simp add: power2_eq_square algebra_simps)
  with assms(1) have "(2 * t)\<^sup>2 \<le> (u + v)\<^sup>2"
    by (simp add: power2_eq_square algebra_simps)
  moreover have "0 \<le> u + v" using assms(2,3) by simp
  ultimately show ?thesis by (rule power2_le_imp_le)
qed

lemma dot_Cons: "dot (u # us) (v # vs) = u * v + dot us vs"
  by (simp add: dot_def)

lemma sumsq_Cons: "sumsq (u # us) = u * u + sumsq us"
  by (simp add: sumsq_def)

lemma cauchy_schwarz_lists:
  "length a = length b \<Longrightarrow> (dot a b)\<^sup>2 \<le> sumsq a * sumsq b"
proof (induction a b rule: list_induct2)
  case Nil
  then show ?case by (simp add: dot_def sumsq_def)
next
  case (Cons u us v vs)
  let ?d = "dot us vs" and ?p = "sumsq us" and ?q = "sumsq vs"
  have p: "0 \<le> ?p" and q: "0 \<le> ?q" by (rule sumsq_nonneg)+
  have "(u * v * ?d)\<^sup>2 = (u * u) * (v * v) * ?d\<^sup>2"
    by (simp add: power2_eq_square algebra_simps)
  also have "\<dots> \<le> (u * u) * (v * v) * (?p * ?q)"
    using Cons.IH by (intro mult_left_mono) simp_all
  also have "\<dots> = (u * u * ?q) * (v * v * ?p)"
    by (simp add: algebra_simps)
  finally have sq: "(u * v * ?d)\<^sup>2 \<le> (u * u * ?q) * (v * v * ?p)" .
  have "2 * (u * v * ?d) \<le> u * u * ?q + v * v * ?p"
    by (rule two_product_le [OF sq]) (simp_all add: p q)
  moreover have "(u * v + ?d)\<^sup>2 = (u * u) * (v * v) + 2 * (u * v * ?d) + ?d\<^sup>2"
    by (simp add: power2_eq_square algebra_simps)
  moreover have "(u * u + ?p) * (v * v + ?q)
                 = (u * u) * (v * v) + (u * u * ?q + v * v * ?p) + ?p * ?q"
    by (simp add: algebra_simps)
  ultimately show ?case
    using Cons.IH unfolding dot_Cons sumsq_Cons by linarith
qed

lemma abs_dot_le_norms:
  assumes "length a = length b"
  shows "\<bar>dot a b\<bar> \<le> euclid_norm a * euclid_norm b"
proof -
  have "\<bar>dot a b\<bar> = sqrt ((dot a b)\<^sup>2)" by simp
  also have "\<dots> \<le> sqrt (sumsq a * sumsq b)"
    using cauchy_schwarz_lists [OF assms] by (simp only: real_sqrt_le_iff)
  also have "\<dots> = euclid_norm a * euclid_norm b"
    by (simp add: euclid_norm_def real_sqrt_mult)
  finally show ?thesis .
qed

lemma cosineSimilarity_bounds:
  assumes "cosineSimilarity a b = Inr r"
  shows "- 1 \<le> r \<and> r \<le> 1"
proof -
  from assms have len: "length a = length b"
    by (simp add: cosineSimilarity_eq split: if_splits)
  show ?thesis
  proof (cases "euclid_norm a = 0 \<or> euclid_norm b = 0")
    case True
    with assms len show ?thesis by (simp add: cosineSimilarity_eq)
  next
    case False
    have na: "0 \<le> euclid_norm a" and nb: "0 \<le> euclid_norm b"
      by (simp_all add: euclid_norm_def sumsq_nonneg)
    with False have pos: "0 < euclid_norm a * euclid_norm b" by simp
    from assms len False have r: "r = dot a b / (euclid_norm a * euclid_norm b)"
      by (simp add: cosineSimilarity_eq)
    have "\<bar>r\<bar> \<le> 1"
      using abs_dot_le_norms [OF len] pos by (simp add: r)
    then show ?thesis by (simp add: abs_le_iff)
  qed
qed

section \<open>The mock embedding provider: facts and claim\<close>

lemma length_mock_components: "length (mock_components n state) = n"
  by (induction n arbitrary: state) (simp_all add: Let_def)

lemma mock_component_nonzero: "real_of_int s / 0x7fffffff * 2 - 1 \<noteq> 0"
proof
  assume "real_of_int s / 0x7fffffff * 2 - 1 = 0"
  then have "real_of_int (2 * s) = real_of_int 2147483647" by simp
  then have "2 * s = 2147483647" by (simp only: of_int_eq_iff)
  then show False by presburger
qed

lemma fold_sum_squares: "fold (\<lambda>val sum. sum + val * val) vs s = s + sumsq vs"
  by (induction vs arbitrary: s) (simp_all add: sumsq_def)

lemma sumsq_mock_components_pos: "0 < n \<Longrightarrow> 0 < sumsq (mock_components n state)"
proof (cases n)
  case 0
  assume "0 < n"
  with 0 show ?thesis by simp
next
  case (Suc k)
  let ?c = "real_of_int (seededRandom_next state) / 0x7fffffff * 2 - 1"
  have "?c \<noteq> 0" by (rule mock_component_nonzero)
  then have "0 < ?c * ?c" by (simp only: zero_less_mult_iff) auto
  moreover have "0 \<le> sumsq (mock_components k (seededRandom_next state))"
    by (rule sumsq_nonneg)
  ultimately show ?thesis
    using Suc by (simp add: Let_def sumsq_Cons)
qed

lemma sumsq_scaled: "sumsq (map (\<lambda>v. v / m) vs) = sumsq vs / (m * m)"
  by (induction vs) (simp_all add: sumsq_def add_divide_distrib)

lemma euclid_norm_normalised:
  assumes "0 < sumsq vs"
  shows "euclid_norm (map (\<lambda>v. v / sqrt (sumsq vs)) vs) = 1"
proof -
  have "sqrt (sumsq vs) * sqrt (sumsq vs) = sumsq vs"
    using assms by simp
  then have "sumsq (map (\<lambda>v. v / sqrt (sumsq vs)) vs) = sumsq vs / sumsq vs"
    by (simp only: sumsq_scaled)
  also have "\<dots> = 1" using assms by simp
  finally show ?thesis by (simp add: euclid_norm_def)
qed

lemma MockProvider_generate_eq:
  "MockProvider_generate toLowerCase trim t =
     map (\<lambda>v. v / sqrt (sumsq (mock_components 384 (hashString (trim (toLowerCase t))))))
       (mock_components 384 (hashString (trim (toLowerCase t))))"
  by (simp add: MockProvider_generate_def MockProvider_dimensions_def Let_def fold_sum_squares)

text \<open>
  C10. The mock embedding provider is a function of the lowercased and trimmed text: two
  texts that are equal after lowercasing and trimming get the same vector. Every vector it
  returns has 384 components and Euclidean norm 1; the magnitude it divides by is positive.
\<close>

theorem MockProvider_generate_normalised:
  "(trim (toLowerCase t1) = trim (toLowerCase t2) \<longrightarrow>
      MockProvider_generate toLowerCase trim t1 = MockProvider_generate toLowerCase trim t2) \<and>
   length (MockProvider_generate toLowerCase trim t) = 384 \<and>
   0 < sumsq (mock_components MockProvider_dimensions (hashString (trim (toLowerCase t)))) \<and>
   euclid_norm (MockProvider_generate toLowerCase trim t) = 1"
proof (intro conjI impI)
  assume "trim (toLowerCase t1) = trim (toLowerCase t2)"
  then show "MockProvider_generate toLowerCase trim t1 = MockProvider_generate toLowerCase trim t2"
    by (simp only: MockProvider_generate_def)
next
  show "length (MockProvider_generate toLowerCase trim t) = 384"
    by (simp add: MockProvider_generate_eq length_mock_components)
next
  show p: "0 < sumsq (mock_components MockProvider_dimensions (hashString (trim (toLowerCase t))))"
    by (rule sumsq_mock_components_pos) (simp add: MockProvider_dimensions_def)
  then show "euclid_norm (MockProvider_generate toLowerCase trim t) = 1"
    unfolding MockProvider_generate_eq MockProvider_dimensions_def
    by (rule euclid_norm_normalised)
qed

theorem MockProvider_generate_normalised_witness:
  "ascii_trim (ascii_toLowerCase [32, 65, 98]) = ascii_trim (ascii_toLowerCase [97, 66, 32]) \<and>
   MockProvider_generate ascii_toLowerCase ascii_trim [32, 65, 98]
     = MockProvider_generate ascii_toLowerCase ascii_trim [97, 66, 32] \<and>
   length (MockProvider_generate ascii_toLowerCase ascii_trim [32, 65, 98]) = 384 \<and>
   euclid_norm (MockProvider_generate ascii_toLowerCase ascii_trim [32, 65, 98]) = 1"
proof -
  have e: "ascii_trim (ascii_toLowerCase [32, 65, 98])
             = ascii_trim (ascii_toLowerCase [97, 66, 32])"
    by (simp add: ascii_trim_def ascii_toLowerCase_def)
  note t = MockProvider_generate_normalised
    [of ascii_trim ascii_toLowerCase "[32, 65, 98]" "[97, 66, 32]" "[32, 65, 98]"]
  from t e have "MockProvider_generate ascii_toLowerCase ascii_trim [32, 65, 98]
     = MockProvider_generate ascii_toLowerCase ascii_trim [97, 66, 32]"
    by blast
  moreover from t have
    "length (MockProvider_generate ascii_toLowerCase ascii_trim [32, 65, 98]) = 384"
    "euclid_norm (MockProvider_generate ascii_toLowerCase ascii_trim [32, 65, 98]) = 1"
    by blast+
  ultimately show ?thesis using e by blast
qed

lemma hashString_example: "hashString [97, 98] = 3105"
  by (simp add: hashString_def hash_step_def Let_def)

lemma bit_length_example: "bit_length 5 = 3"
  by code_simp

text \<open>
  Two states of the generator: for the seed 3105 the product is exact; for \<open>2 ^ 31 - 1\<close> it
  needs 62 bits and is rounded, and the next state differs from exact integer arithmetic.
\<close>

lemma bit_length_examples:
  "bit_length 3426414835725 = 42" "bit_length 3426414848070 = 42"
  "bit_length 2369780942852698515 = 62" "bit_length 2369780942852710969 = 62"
  by (simp_all add: bit_length.simps)

lemma round_to_double_examples:
  "round_to_double 3426414835725 = 3426414835725"
  "round_to_double 3426414848070 = 3426414848070"
  "round_to_double 2369780942852698515 = 2369780942852698624"
  "round_to_double 2369780942852710969 = 2369780942852710912"
  by (simp_all add: round_to_double_def Let_def bit_length_examples)

lemma seededRandom_next_examples:
  "seededRandom_next 3105 = 1178429510"
  "seededRandom_next 2147483647 = 1043980800"
  by (simp_all add: seededRandom_next_def round_to_double_examples)

lemma exact_arithmetic_differs:
  "(2147483647 * 1103515245 + 12345) mod 2 ^ 31 = (1043980748 :: int)"
  by simp

section \<open>Facts about the hybrid candidate search\<close>

lemma find_None_iff_not_mem:
  "(find (\<lambda>rs. skill_id (skill rs) = sid) relevantSkills = None)
     = (sid \<notin> set (map (\<lambda>rs. skill_id (skill rs)) relevantSkills))"
  by (auto simp: find_None_iff)

lemma score_edge_unmatched:
  "edge_out e \<notin> set (map (\<lambda>rs. skill_id (skill rs)) relevantSkills) \<Longrightarrow>
     score_edge relevantSkills e (ms, g) = (ms, g)"
  using find_None_iff_not_mem [of "edge_out e" relevantSkills]
  by (simp add: score_edge_def)

lemma score_edge_matched:
  "edge_out e \<in> set (map (\<lambda>rs. skill_id (skill rs)) relevantSkills) \<Longrightarrow>
     score_edge relevantSkills e (ms, g) =
       (ms @ [matched_detail relevantSkills e],
        g + ((proficiency e / 5) * relevance_of relevantSkills (edge_out e)
             + (if certified e then 0.1 else 0)))"
  using find_None_iff_not_mem [of "edge_out e" relevantSkills]
  by (cases "find (\<lambda>rs. skill_id (skill rs) = edge_out e) relevantSkills")
     (simp_all add: score_edge_def matched_detail_def relevance_of_def Let_def)

lemma fold_score_edge:
  "fold (score_edge relevantSkills) empSkills (ms, g) =
     (ms @ map (matched_detail relevantSkills) (matched_edges relevantSkills empSkills),
      g + graph_score_spec relevantSkills empSkills)"
proof (induction empSkills arbitrary: ms g)
  case Nil
  then show ?case by (simp add: matched_edges_def graph_score_spec_def)
next
  case (Cons e es)
  show ?case
  proof (cases "edge_out e \<in> set (map (\<lambda>rs. skill_id (skill rs)) relevantSkills)")
    case True
    have "fold (score_edge relevantSkills) (e # es) (ms, g)
          = fold (score_edge relevantSkills) es (score_edge relevantSkills e (ms, g))"
      by simp
    also have "\<dots> = fold (score_edge relevantSkills) es
        (ms @ [matched_detail relevantSkills e],
         g + ((proficiency e / 5) * relevance_of relevantSkills (edge_out e)
              + (if certified e then 0.1 else 0)))"
      using True by (simp only: score_edge_matched)
    finally show ?thesis
      using True by (simp add: Cons.IH matched_edges_def graph_score_spec_def)
  next
    case False
    have "fold (score_edge relevantSkills) (e # es) (ms, g)
          = fold (score_edge relevantSkills) es (ms, g)"
      using False by (simp add: score_edge_unmatched)
    then show ?thesis
      using False by (simp add: Cons.IH matched_edges_def graph_score_spec_def)
  qed
qed

lemma scan_employees_sound:
  "scan_employees env qEmb relevantSkills emps (issued, cands) = (issued', Inr out) \<Longrightarrow>
     \<exists>new. out = cands @ new \<and>
           map employee new = filter (has_match env relevantSkills) emps \<and>
           list_all (scored_as env qEmb relevantSkills) new \<and>
           issued' = issued @ map (\<lambda>emp. SelectHasSkill (employee_id emp)) emps"
proof (induction emps arbitrary: issued cands)
  case Nil
  then show ?case by simp
next
  case (Cons emp emps)
  from Cons.prems obtain empSkills where
    es: "select_has_skill env (employee_id emp) = Inr empSkills"
    by (cases "select_has_skill env (employee_id emp)") auto
  let ?m = "matched_edges relevantSkills empSkills"
  have hm: "has_match env relevantSkills emp = (?m \<noteq> [])"
    using es by (simp add: has_match_def)
  show ?case
  proof (cases "?m = []")
    case True
    with Cons.prems es have
      "scan_employees env qEmb relevantSkills emps
         (issued @ [SelectHasSkill (employee_id emp)], cands) = (issued', Inr out)"
      by (simp add: fold_score_edge)
    from Cons.IH [OF this] obtain new where
      "out = cands @ new" "map employee new = filter (has_match env relevantSkills) emps"
      "list_all (scored_as env qEmb relevantSkills) new"
      "issued' = (issued @ [SelectHasSkill (employee_id emp)])
                  @ map (\<lambda>emp. SelectHasSkill (employee_id emp)) emps"
      by blast
    with True hm show ?thesis by simp
  next
    case False
    with Cons.prems es obtain sem where sem: "employee_semantic qEmb emp = Inr sem"
      by (cases "employee_semantic qEmb emp") (auto simp: fold_score_edge)
    let ?c = "\<lparr>employee = emp,
               matchScore = (graph_score_spec relevantSkills empSkills * 0.6) + (sem * 0.4),
               matchedSkills = sort_desc matched_relevance (map (matched_detail relevantSkills) ?m),
               semanticScore = sem,
               graphScore = graph_score_spec relevantSkills empSkills\<rparr>"
    from Cons.prems es sem False have
      "scan_employees env qEmb relevantSkills emps
         (issued @ [SelectHasSkill (employee_id emp)], cands @ [?c]) = (issued', Inr out)"
      by (simp add: fold_score_edge)
    from Cons.IH [OF this] obtain new where new:
      "out = (cands @ [?c]) @ new" "map employee new = filter (has_match env relevantSkills) emps"
      "list_all (scored_as env qEmb relevantSkills) new"
      "issued' = (issued @ [SelectHasSkill (employee_id emp)])
                  @ map (\<lambda>emp. SelectHasSkill (employee_id emp)) emps"
      by blast
    have "scored_as env qEmb relevantSkills ?c"
      using es sem False by (simp add: scored_as_def)
    with new False hm show ?thesis
      by (intro exI [of _ "?c # new"]) simp
  qed
qed

lemma search_try_success:
  assumes "search_try env sq = (issued, Inr r)"
  shows "\<exists>qEmb allSkills rs.
           generateEmbedding env (query sq) = Inr qEmb \<and>
           select_skill env = Inr allSkills \<and>
           relevant_skills qEmb allSkills = Inr rs \<and>
           queryEmbedding r = Some qEmb \<and>
           (if rs = [] then candidates r = [] \<and> totalMatches r = 0 \<and> issued = [SelectSkill]
            else (\<exists>emps cs.
                    select_employee env (department_param sq) = Inr emps \<and>
                    map employee cs = filter (has_match env rs) emps \<and>
                    list_all (scored_as env qEmb rs) cs \<and>
                    candidates r = slice0 (limit_param sq) (sort_desc matchScore cs) \<and>
                    totalMatches r = length cs \<and>
                    issued = SelectSkill # SelectEmployee (department_param sq)
                               # map (\<lambda>emp. SelectHasSkill (employee_id emp)) emps))"
proof -
  from assms obtain qEmb where q: "generateEmbedding env (query sq) = Inr qEmb"
    by (cases "generateEmbedding env (query sq)") (auto simp: search_try_def)
  from assms q obtain allSkills where s: "select_skill env = Inr allSkills"
    by (cases "select_skill env") (auto simp: search_try_def)
  from assms q s obtain rs where rs: "relevant_skills qEmb allSkills = Inr rs"
    by (cases "relevant_skills qEmb allSkills") (auto simp: search_try_def)
  show ?thesis
  proof (cases "rs = []")
    case True
    with assms q s rs show ?thesis
      by (auto simp: search_try_def)
  next
    case False
    with assms q s rs obtain emps where
      e: "select_employee env (department_param sq) = Inr emps"
      by (cases "select_employee env (department_param sq)") (auto simp: search_try_def)
    obtain issued' res where sc:
      "scan_employees env qEmb rs emps
         ([SelectSkill, SelectEmployee (department_param sq)], []) = (issued', res)"
      by (cases "scan_employees env qEmb rs emps
         ([SelectSkill, SelectEmployee (department_param sq)], [])") auto
    from assms q s rs False e sc obtain cs where cs: "res = Inr cs"
      by (cases res) (auto simp: search_try_def)
    from assms q s rs False e sc cs have r:
      "issued = issued'"
      "candidates r = slice0 (limit_param sq) (sort_desc matchScore cs)"
      "totalMatches r = length cs" "queryEmbedding r = Some qEmb"
      by (auto simp: search_try_def Let_def sort_desc_def)
    from scan_employees_sound [OF sc [unfolded cs]] obtain new where
      "cs = [] @ new" "map employee new = filter (has_match env rs) emps"
      "list_all (scored_as env qEmb rs) new"
      "issued' = [SelectSkill, SelectEmployee (department_param sq)]
                  @ map (\<lambda>emp. SelectHasSkill (employee_id emp)) emps"
      by blast
    with q s rs False e r show ?thesis by auto
  qed
qed

lemma search_try_failure:
  "snd (search_try env sq) = Inl e \<Longrightarrow>
     candidates (snd (useCandidateSearch env sq)) = [] \<and>
     totalMatches (snd (useCandidateSearch env sq)) = 0"
  by (cases "search_try env sq") (simp add: useCandidateSearch_def)

lemma useCandidateSearch_success:
  "search_try env sq = (issued, Inr r) \<Longrightarrow> useCandidateSearch env sq = (issued, r)"
  by (simp add: useCandidateSearch_def)

lemma candidate_origin:
  assumes "c \<in> set (candidates (snd (useCandidateSearch env sq)))"
  shows "\<exists>qEmb allSkills rs emps.
           generateEmbedding env (query sq) = Inr qEmb \<and>
           select_skill env = Inr allSkills \<and>
           relevant_skills qEmb allSkills = Inr rs \<and>
           select_employee env (department_param sq) = Inr emps \<and>
           employee c \<in> set emps \<and>
           scored_as env qEmb rs c"
proof -
  obtain issued res where st: "search_try env sq = (issued, res)"
    by (cases "search_try env sq") auto
  show ?thesis
  proof (cases res)
    case (Inl e)
    with st assms show ?thesis by (simp add: useCandidateSearch_def)
  next
    case (Inr r)
    with st assms have c: "c \<in> set (candidates r)"
      by (simp add: useCandidateSearch_def)
    from search_try_success [OF st [unfolded Inr]] obtain qEmb allSkills rs where
      a: "generateEmbedding env (query sq) = Inr qEmb" "select_skill env = Inr allSkills"
         "relevant_skills qEmb allSkills = Inr rs"
      and b: "if rs = [] then candidates r = [] \<and> totalMatches r = 0 \<and> issued = [SelectSkill]
            else (\<exists>emps cs.
                    select_employee env (department_param sq) = Inr emps \<and>
                    map employee cs = filter (has_match env rs) emps \<and>
                    list_all (scored_as env qEmb rs) cs \<and>
                    candidates r = slice0 (limit_param sq) (sort_desc matchScore cs) \<and>
                    totalMatches r = length cs \<and>
                    issued = SelectSkill # SelectEmployee (department_param sq)
                               # map (\<lambda>emp. SelectHasSkill (employee_id emp)) emps)"
      by blast
    from b c have ne: "rs \<noteq> []" by (auto split: if_splits)
    with b obtain emps cs where
      d: "select_employee env (department_param sq) = Inr emps"
         "map employee cs = filter (has_match env rs) emps"
         "list_all (scored_as env qEmb rs) cs"
         "candidates r = slice0 (limit_param sq) (sort_desc matchScore cs)"
      by auto
    from c d(4) have "c \<in> set (sort_desc matchScore cs)"
      by (auto simp: slice0_def dest: in_set_takeD split: if_splits)
    then have ccs: "c \<in> set cs" by (simp add: sort_desc_def)
    then have "employee c \<in> set (map employee cs)" by simp
    with d(2) have "employee c \<in> set emps" by simp
    moreover from ccs d(3) have "scored_as env qEmb rs c" by (simp add: list_all_iff)
    ultimately show ?thesis using a d(1) by blast
  qed
qed

section \<open>Evaluation of the search on the example stores\<close>

lemma demo_skill_fields:
  "skill_id python_skill = ''s1''" "skill_id learning_skill = ''s2''"
  "skill_id coq_skill = ''s3''" "skill_id go_skill = ''s4''"
  "skill_embedding python_skill = Some [1, 0]" "skill_embedding learning_skill = Some [4, 3]"
  "skill_embedding coq_skill = None" "skill_embedding go_skill = Some [0, 1]"
  by (simp_all add: python_skill_def learning_skill_def coq_skill_def go_skill_def)

lemma demo_employee_fields:
  "employee_id ann_employee = ''e1''" "employee_id bob_employee = ''e2''"
  "employee_id cy_employee = ''e3''"
  "employee_embedding ann_employee = None" "employee_embedding bob_employee = Some [- 1, 0]"
  "employee_embedding cy_employee = None"
  by (simp_all add: ann_employee_def bob_employee_def cy_employee_def)

lemma demo_env_fields:
  "generateEmbedding demo_env t = Inr [1, 0]"
  "select_skill demo_env = Inr [learning_skill, python_skill, coq_skill, go_skill]"
  "select_employee demo_env d = Inr [cy_employee, bob_employee, ann_employee]"
  "select_has_skill demo_env ''e1'' = Inr ann_edges"
  "select_has_skill demo_env ''e2'' = Inr bob_edges"
  "select_has_skill demo_env ''e3'' = Inr cy_edges"
  "startTime demo_env = 100" "endTime demo_env = 107"
  by (simp_all add: demo_env_def)

lemma demo_cosines:
  "cosineSimilarity [1, 0] [1, 0] = Inr 1"
  "cosineSimilarity [1, 0] [4, 3] = Inr (4 / 5)"
  "cosineSimilarity [1, 0] [0, 1] = Inr 0"
  "cosineSimilarity [1, 0] [- 1, 0] = Inr (- 1)"
  by (simp_all add: cosineSimilarity_def cosine_loop_def)

lemma demo_relevant_skills:
  "relevant_skills [1, 0] [learning_skill, python_skill, coq_skill, go_skill]
     = Inr demo_relevant"
  by (simp add: relevant_skills_def skill_relevance_def demo_skill_fields demo_cosines
      sort_desc_def demo_relevant_def)

lemma demo_fold_edges:
  "fold (score_edge demo_relevant) ann_edges ([], 0) = (matchedSkills ann_match, 2)"
  "fold (score_edge demo_relevant) bob_edges ([], 0) = (matchedSkills bob_match, 1 / 5)"
  "fold (score_edge demo_relevant) cy_edges ([], 0) = ([], 0)"
  by (simp_all add: score_edge_def demo_relevant_def ann_edges_def bob_edges_def cy_edges_def
      demo_skill_fields ann_match_def bob_match_def)

lemma demo_scan:
  "scan_employees demo_env [1, 0] demo_relevant [cy_employee, bob_employee, ann_employee]
     (issued, []) =
     (issued @ [SelectHasSkill ''e3'', SelectHasSkill ''e2'', SelectHasSkill ''e1''],
      Inr [bob_match, ann_match])"
  by (simp add: demo_env_fields demo_employee_fields demo_fold_edges employee_semantic_def
      demo_cosines sort_desc_def ann_match_def bob_match_def)

lemma demo_search_try:
  "search_try demo_env demo_query =
     ([SelectSkill, SelectEmployee None, SelectHasSkill ''e3'', SelectHasSkill ''e2'',
       SelectHasSkill ''e1''],
      Inr \<lparr>candidates = [ann_match, bob_match], queryEmbedding = Some [1, 0],
           totalMatches = 2, processingTimeMs = 7\<rparr>)"
proof -
  have d: "department_param demo_query = None" "limit_param demo_query = 10"
    by (simp_all add: department_param_def limit_param_def demo_query_def)
  have n: "demo_relevant \<noteq> []" by (simp add: demo_relevant_def)
  have s: "sort_desc matchScore [bob_match, ann_match] = [ann_match, bob_match]"
    by (simp add: sort_desc_def ann_match_def bob_match_def)
  show ?thesis
    unfolding search_try_def
    by (simp add: demo_env_fields demo_relevant_skills n d s slice0_def
        demo_scan [of "[SelectSkill, SelectEmployee None]", simplified])
qed

section \<open>The claims about the search\<close>

lemma scan_employees_failure:
  "\<exists>emp\<in>set emps. isl (select_has_skill env (employee_id emp)) \<or>
       (has_match env rs emp \<and> isl (employee_semantic qEmb emp)) \<Longrightarrow>
   isl (snd (scan_employees env qEmb rs emps (issued, cands)))"
proof (induction emps arbitrary: issued cands)
  case Nil
  then show ?case by simp
next
  case (Cons emp emps)
  show ?case
  proof (cases "select_has_skill env (employee_id emp)")
    case (Inl e)
    then show ?thesis by simp
  next
    case (Inr empSkills)
    have hm: "has_match env rs emp = (matched_edges rs empSkills \<noteq> [])"
      using Inr by (simp add: has_match_def)
    show ?thesis
    proof (cases "has_match env rs emp \<and> isl (employee_semantic qEmb emp)")
      case True
      then obtain e where "employee_semantic qEmb emp = Inl e"
        by (cases "employee_semantic qEmb emp") auto
      with True Inr hm show ?thesis by (simp add: fold_score_edge)
    next
      case False
      with Cons.prems Inr have rest:
        "\<exists>emp\<in>set emps. isl (select_has_skill env (employee_id emp)) \<or>
           (has_match env rs emp \<and> isl (employee_semantic qEmb emp))"
        by auto
      show ?thesis
      proof (cases "matched_edges rs empSkills = []")
        case True
        with Inr show ?thesis by (simp add: fold_score_edge Cons.IH [OF rest])
      next
        case nonempty: False
        with False hm obtain sem where "employee_semantic qEmb emp = Inr sem"
          by (cases "employee_semantic qEmb emp") auto
        with nonempty Inr show ?thesis by (simp add: fold_score_edge Cons.IH [OF rest])
      qed
    qed
  qed
qed

lemma search_try_scan_failure:
  assumes "generateEmbedding env (query sq) = Inr qEmb" "select_skill env = Inr allSkills"
    "relevant_skills qEmb allSkills = Inr rs" "rs \<noteq> []"
    "select_employee env (department_param sq) = Inr emps"
    "\<exists>emp\<in>set emps. isl (select_has_skill env (employee_id emp)) \<or>
       (has_match env rs emp \<and> isl (employee_semantic qEmb emp))"
  shows "isl (snd (search_try env sq))"
proof -
  let ?s = "scan_employees env qEmb rs emps
              ([SelectSkill, SelectEmployee (department_param sq)], [])"
  from scan_employees_failure [OF assms(6)] have "isl (snd ?s)" .
  then obtain issued e where "?s = (issued, Inl e)"
    by (cases ?s) (auto simp: isl_def)
  with assms(1-5) show ?thesis by (simp add: search_try_def)
qed

lemma isl_search_try_empty:
  "isl (snd (search_try env sq)) \<Longrightarrow>
     candidates (snd (useCandidateSearch env sq)) = [] \<and>
     totalMatches (snd (useCandidateSearch env sq)) = 0"
  by (cases "search_try env sq") (auto simp: useCandidateSearch_def isl_def)

text \<open>
  C5. The search never throws to its caller: \<open>useCandidateSearch\<close> always returns a result,
  and whenever the body of the \<open>try\<close> raises, be it the embedding call, the skill query, a
  similarity of the relevance step, the employee query, an edge query of the loop or a
  similarity of the scoring loop, the result has an empty \<open>candidates\<close> list and
  \<open>totalMatches = 0\<close>.
\<close>

theorem search_failures_caught:
  "(isl (snd (search_try env sq)) \<longrightarrow> empty_outcome env sq) \<and>
   (isl (generateEmbedding env (query sq)) \<longrightarrow> empty_outcome env sq) \<and>
   (isl (select_skill env) \<longrightarrow> empty_outcome env sq) \<and>
   (\<forall>qEmb allSkills.
      generateEmbedding env (query sq) = Inr qEmb \<and> select_skill env = Inr allSkills \<and>
      isl (relevant_skills qEmb allSkills) \<longrightarrow> empty_outcome env sq) \<and>
   (\<forall>qEmb allSkills rs.
      generateEmbedding env (query sq) = Inr qEmb \<and> select_skill env = Inr allSkills \<and>
      relevant_skills qEmb allSkills = Inr rs \<and>
      isl (select_employee env (department_param sq)) \<longrightarrow> empty_outcome env sq) \<and>
   (\<forall>qEmb allSkills rs emps emp.
      generateEmbedding env (query sq) = Inr qEmb \<and> select_skill env = Inr allSkills \<and>
      relevant_skills qEmb allSkills = Inr rs \<and>
      select_employee env (department_param sq) = Inr emps \<and> emp \<in> set emps \<and>
      (isl (select_has_skill env (employee_id emp)) \<or>
       has_match env rs emp \<and> isl (employee_semantic qEmb emp)) \<longrightarrow> empty_outcome env sq)"
proof (intro conjI allI impI)
  assume "isl (snd (search_try env sq))"
  then show "empty_outcome env sq"
    unfolding empty_outcome_def by (rule isl_search_try_empty)
next
  assume "isl (generateEmbedding env (query sq))"
  then have "isl (snd (search_try env sq))"
    by (cases "generateEmbedding env (query sq)") (auto simp: search_try_def)
  then show "empty_outcome env sq"
    unfolding empty_outcome_def by (rule isl_search_try_empty)
next
  assume a: "isl (select_skill env)"
  have "isl (snd (search_try env sq))"
    using a
    by (cases "generateEmbedding env (query sq)"; cases "select_skill env")
       (auto simp: search_try_def)
  then show "empty_outcome env sq"
    unfolding empty_outcome_def by (rule isl_search_try_empty)
next
  fix qEmb allSkills
  assume "generateEmbedding env (query sq) = Inr qEmb \<and> select_skill env = Inr allSkills \<and>
      isl (relevant_skills qEmb allSkills)"
  then have "isl (snd (search_try env sq))"
    by (cases "relevant_skills qEmb allSkills") (auto simp: search_try_def)
  then show "empty_outcome env sq"
    unfolding empty_outcome_def by (rule isl_search_try_empty)
next
  fix qEmb allSkills rs
  assume a: "generateEmbedding env (query sq) = Inr qEmb \<and> select_skill env = Inr allSkills \<and>
      relevant_skills qEmb allSkills = Inr rs \<and>
      isl (select_employee env (department_param sq))"
  show "empty_outcome env sq"
  proof (cases "rs = []")
    case True
    with a show ?thesis
      by (simp add: empty_outcome_def useCandidateSearch_def search_try_def)
  next
    case False
    with a have "isl (snd (search_try env sq))"
      by (cases "select_employee env (department_param sq)") (auto simp: search_try_def)
    then show ?thesis
      unfolding empty_outcome_def by (rule isl_search_try_empty)
  qed
next
  fix qEmb allSkills rs emps emp
  assume a: "generateEmbedding env (query sq) = Inr qEmb \<and> select_skill env = Inr allSkills \<and>
      relevant_skills qEmb allSkills = Inr rs \<and>
      select_employee env (department_param sq) = Inr emps \<and> emp \<in> set emps \<and>
      (isl (select_has_skill env (employee_id emp)) \<or>
       has_match env rs emp \<and> isl (employee_semantic qEmb emp))"
  show "empty_outcome env sq"
  proof (cases "rs = []")
    case True
    with a show ?thesis
      by (simp add: empty_outcome_def useCandidateSearch_def search_try_def)
  next
    case False
    from a have "\<exists>emp\<in>set emps. isl (select_has_skill env (employee_id emp)) \<or>
       (has_match env rs emp \<and> isl (employee_semantic qEmb emp))"
      by blast
    with a False have "isl (snd (search_try env sq))"
      by (intro search_try_scan_failure [of env sq qEmb allSkills rs emps]) simp_all
    then show ?thesis
      unfolding empty_outcome_def by (rule isl_search_try_empty)
  qed
qed

theorem search_failures_caught_witness:
  "bob_employee \<in> set [cy_employee, bob_employee, ann_employee] \<and>
   isl (select_has_skill failing_env (employee_id bob_employee)) \<and>
   candidates (snd (useCandidateSearch failing_env demo_query)) = [] \<and>
   totalMatches (snd (useCandidateSearch failing_env demo_query)) = 0"
proof -
  have f: "generateEmbedding failing_env (query demo_query) = Inr [1, 0]"
    "select_skill failing_env = Inr [learning_skill, python_skill, coq_skill, go_skill]"
    "select_employee failing_env (department_param demo_query)
       = Inr [cy_employee, bob_employee, ann_employee]"
    "isl (select_has_skill failing_env (employee_id bob_employee))"
    by (simp_all add: failing_env_def demo_env_fields demo_employee_fields)
  from search_failures_caught [of failing_env demo_query] f demo_relevant_skills
  have "empty_outcome failing_env demo_query"
    by (elim conjE allE [of _ "[1, 0]"]
          allE [of _ "[learning_skill, python_skill, coq_skill, go_skill]"]
          allE [of _ demo_relevant]
          allE [of _ "[cy_employee, bob_employee, ann_employee]"] allE [of _ bob_employee]) simp
  with f(4) show ?thesis by (simp add: empty_outcome_def)
qed

lemma sorted_sort_desc: "sorted_wrt (\<lambda>a b. f b \<le> f a) (sort_desc f xs)"
proof -
  have "sorted (map (\<lambda>x. - f x) (sort_key (\<lambda>x. - f x) xs))"
    by (rule sorted_sort_key)
  then show ?thesis
    by (simp add: sort_desc_def sorted_map)
qed

lemma sort_desc_stable: "filter (\<lambda>x. f x = k) (sort_desc f xs) = filter (\<lambda>x. f x = k) xs"
  using sort_key_stable [of "\<lambda>x. - f x" "- k" xs] by (simp add: sort_desc_def)

lemma mset_sort_desc: "mset (sort_desc f xs) = mset xs"
  by (simp add: sort_desc_def)

lemma slice0_nonneg: "0 \<le> n \<Longrightarrow> slice0 n xs = take (nat n) xs"
  by (simp add: slice0_def)

lemma demo_useCandidateSearch:
  "snd (useCandidateSearch demo_env demo_query) =
     \<lparr>candidates = [ann_match, bob_match], queryEmbedding = Some [1, 0],
      totalMatches = 2, processingTimeMs = 7\<rparr>"
  by (simp add: useCandidateSearch_def demo_search_try)

text \<open>
  C2. For every candidate the search returns, \<open>graphScore\<close> is the sum, over the employee's
  edges whose skill is in the relevant set, of \<open>proficiency / 5\<close> times the skill's relevance,
  plus 0.1 for each certified matched edge; \<open>semanticScore\<close> is the cosine similarity of the
  query embedding and the employee's embedding when present, else 0.5; and
  \<open>matchScore = graphScore * 0.6 + semanticScore * 0.4\<close>.
\<close>

theorem candidate_scores_formula:
  assumes "c \<in> set (candidates (snd (useCandidateSearch env sq)))"
  shows "\<exists>qEmb allSkills rs empSkills.
           generateEmbedding env (query sq) = Inr qEmb \<and>
           select_skill env = Inr allSkills \<and>
           relevant_skills qEmb allSkills = Inr rs \<and>
           select_has_skill env (employee_id (employee c)) = Inr empSkills \<and>
           graphScore c =
             (\<Sum>e \<leftarrow> matched_edges rs empSkills.
                (proficiency e / 5) * relevance_of rs (edge_out e)
                + (if certified e then 0.1 else 0)) \<and>
           (case employee_embedding (employee c) of
              Some v \<Rightarrow> cosineSimilarity qEmb v = Inr (semanticScore c)
            | None \<Rightarrow> semanticScore c = 0.5) \<and>
           matchScore c = graphScore c * 0.6 + semanticScore c * 0.4"
proof -
  from candidate_origin [OF assms] obtain qEmb allSkills rs where
    a: "generateEmbedding env (query sq) = Inr qEmb" "select_skill env = Inr allSkills"
       "relevant_skills qEmb allSkills = Inr rs"
    and s: "scored_as env qEmb rs c"
    by blast
  from s obtain empSkills where
    e: "select_has_skill env (employee_id (employee c)) = Inr empSkills"
       "employee_semantic qEmb (employee c) = Inr (semanticScore c)"
       "graphScore c = graph_score_spec rs empSkills"
       "matchScore c = graphScore c * 0.6 + semanticScore c * 0.4"
    unfolding scored_as_def by (elim exE conjE)
  from e(2) have "case employee_embedding (employee c) of
              Some v \<Rightarrow> cosineSimilarity qEmb v = Inr (semanticScore c)
            | None \<Rightarrow> semanticScore c = 0.5"
    by (simp add: employee_semantic_def split: option.splits)
  with a e(1,3,4) show ?thesis
    unfolding graph_score_spec_def
    by (intro exI [of _ qEmb] exI [of _ allSkills] exI [of _ rs] exI [of _ empSkills] conjI)
qed

theorem candidate_scores_formula_witness:
  "ann_match \<in> set (candidates (snd (useCandidateSearch demo_env demo_query))) \<and>
   graphScore ann_match = (5 / 5) * 1 + 0.1 + ((5 / 5) * (4 / 5) + 0.1) \<and>
   semanticScore ann_match = 0.5 \<and>
   matchScore ann_match = graphScore ann_match * 0.6 + semanticScore ann_match * 0.4"
proof -
  have m: "ann_match \<in> set (candidates (snd (useCandidateSearch demo_env demo_query)))"
    by (simp add: demo_useCandidateSearch)
  from candidate_scores_formula [OF m] obtain qEmb allSkills rs empSkills where
    "generateEmbedding demo_env (query demo_query) = Inr qEmb"
    "select_skill demo_env = Inr allSkills" "relevant_skills qEmb allSkills = Inr rs"
    "select_has_skill demo_env (employee_id (employee ann_match)) = Inr empSkills"
    and g: "graphScore ann_match =
             (\<Sum>e \<leftarrow> matched_edges rs empSkills.
                (proficiency e / 5) * relevance_of rs (edge_out e)
                + (if certified e then 0.1 else 0))"
    and r: "case employee_embedding (employee ann_match) of
              Some v \<Rightarrow> cosineSimilarity qEmb v = Inr (semanticScore ann_match)
            | None \<Rightarrow> semanticScore ann_match = 0.5"
       "matchScore ann_match = graphScore ann_match * 0.6 + semanticScore ann_match * 0.4"
    by blast
  then have "rs = demo_relevant" "empSkills = ann_edges"
    using demo_relevant_skills
    by (simp_all add: demo_env_fields ann_match_def demo_employee_fields)
  with g have "graphScore ann_match = (5 / 5) * 1 + 0.1 + ((5 / 5) * (4 / 5) + 0.1)"
    by (simp add: matched_edges_def relevance_of_def demo_relevant_def ann_edges_def
        demo_skill_fields)
  moreover from r(1) have "semanticScore ann_match = 0.5"
    by (simp add: ann_match_def demo_employee_fields)
  ultimately show ?thesis using m r(2) by blast
qed

lemma scored_as_unique:
  assumes "scored_as env qEmb rs c" "scored_as env qEmb rs c'" "employee c = employee c'"
  shows "c = c'"
proof -
  from assms(1) obtain es where
    a: "select_has_skill env (employee_id (employee c)) = Inr es"
       "employee_semantic qEmb (employee c) = Inr (semanticScore c)"
       "graphScore c = graph_score_spec rs es"
       "matchScore c = graphScore c * 0.6 + semanticScore c * 0.4"
       "matchedSkills c =
          sort_desc matched_relevance (map (matched_detail rs) (matched_edges rs es))"
    unfolding scored_as_def by (elim exE conjE)
  from assms(2) obtain es' where
    b: "select_has_skill env (employee_id (employee c')) = Inr es'"
       "employee_semantic qEmb (employee c') = Inr (semanticScore c')"
       "graphScore c' = graph_score_spec rs es'"
       "matchScore c' = graphScore c' * 0.6 + semanticScore c' * 0.4"
       "matchedSkills c' =
          sort_desc matched_relevance (map (matched_detail rs) (matched_edges rs es'))"
    unfolding scored_as_def by (elim exE conjE)
  from a(1) b(1) assms(3) have es: "es = es'" by simp
  from a(2) b(2) assms(3) have sem: "semanticScore c = semanticScore c'" by simp
  from a(3) b(3) es have g: "graphScore c = graphScore c'" by simp
  from a(4) b(4) sem g have m: "matchScore c = matchScore c'" by simp
  from a(5) b(5) es have ms: "matchedSkills c = matchedSkills c'" by simp
  from assms(3) sem g m ms show ?thesis by simp
qed

lemma scored_as_list_unique:
  assumes "map employee cs = map employee cs'"
    "list_all (scored_as env qEmb rs) cs" "list_all (scored_as env qEmb rs) cs'"
  shows "cs = cs'"
proof -
  from assms(1) have "length cs = length cs'" by (rule map_eq_imp_length_eq)
  then show ?thesis
    using assms
  proof (induction cs cs' rule: list_induct2)
    case Nil
    then show ?case by simp
  next
    case (Cons c cs c' cs')
    then have "c = c'" by (auto intro: scored_as_unique)
    with Cons show ?case by simp
  qed
qed

lemma ranked_determined:
  assumes "mset ranked = mset cs"
    "sorted_wrt (\<lambda>a b. matchScore b \<le> matchScore a) ranked"
    "\<forall>k. filter (\<lambda>c. matchScore c = k) ranked = filter (\<lambda>c. matchScore c = k) cs"
  shows "ranked = sort_desc matchScore cs"
proof -
  have "sort_key (\<lambda>c. - matchScore c) cs = ranked"
  proof (rule properties_for_sort_key)
    show "mset ranked = mset cs" by (rule assms(1))
    show "sorted (map (\<lambda>c. - matchScore c) ranked)"
      using assms(2) by (simp add: sorted_map)
    fix k
    assume "k \<in> set ranked"
    have e: "(\<lambda>c. - matchScore k = - matchScore c) = (\<lambda>c. matchScore c = matchScore k)"
      by auto
    from assms(3) have
      "filter (\<lambda>c. matchScore c = matchScore k) ranked
         = filter (\<lambda>c. matchScore c = matchScore k) cs"
      by blast
    then show "filter (\<lambda>c. - matchScore k = - matchScore c) ranked
         = filter (\<lambda>c. - matchScore k = - matchScore c) cs"
      by (simp only: e)
  qed
  then show ?thesis by (simp add: sort_desc_def)
qed

text \<open>
  C4. When the search completes without a failure and the limit is not negative, the
  candidates before truncation are exactly the fetched employees with at least one matched
  relevant skill, in store-fetch order in \<open>cs\<close>, each carrying the scores the search computes
  for its employee (\<open>scored_as\<close>, which fixes every field of a candidate, so that \<open>cs\<close> and
  \<open>ranked\<close> are determined: \<open>scored_as_list_unique\<close>, \<open>ranked_determined\<close>). \<open>ranked\<close> is
  \<open>cs\<close> sorted by descending \<open>matchScore\<close>, candidates of equal score keeping their
  store-fetch order; \<open>candidates\<close> is the first \<open>limit\<close> elements of \<open>ranked\<close> (10 by
  default), so the candidates that survive the truncation are those of highest
  \<open>matchScore\<close>, and \<open>totalMatches\<close> is the number before truncation.
\<close>

theorem candidates_selected_ranked_truncated:
  assumes "search_try env sq = (issued, Inr r)"
    and "0 \<le> (case limit sq of None \<Rightarrow> 10 | Some l \<Rightarrow> l)"
  shows "\<exists>qEmb allSkills rs emps cs ranked.
           generateEmbedding env (query sq) = Inr qEmb \<and>
           select_skill env = Inr allSkills \<and>
           relevant_skills qEmb allSkills = Inr rs \<and>
           (rs = [] \<and> emps = [] \<or>
            rs \<noteq> [] \<and> select_employee env (department_param sq) = Inr emps) \<and>
           map employee cs = filter (has_match env rs) emps \<and>
           list_all (scored_as env qEmb rs) cs \<and>
           mset ranked = mset cs \<and>
           sorted_wrt (\<lambda>a b. matchScore b \<le> matchScore a) ranked \<and>
           (\<forall>k. filter (\<lambda>c. matchScore c = k) ranked = filter (\<lambda>c. matchScore c = k) cs) \<and>
           totalMatches r = length ranked \<and>
           candidates r = take (nat (case limit sq of None \<Rightarrow> 10 | Some l \<Rightarrow> l)) ranked \<and>
           useCandidateSearch env sq = (issued, r)"
proof -
  from search_try_success [OF assms(1)] obtain qEmb allSkills rs where
    a: "generateEmbedding env (query sq) = Inr qEmb" "select_skill env = Inr allSkills"
       "relevant_skills qEmb allSkills = Inr rs"
    and b: "if rs = [] then candidates r = [] \<and> totalMatches r = 0 \<and> issued = [SelectSkill]
            else (\<exists>emps cs.
                    select_employee env (department_param sq) = Inr emps \<and>
                    map employee cs = filter (has_match env rs) emps \<and>
                    list_all (scored_as env qEmb rs) cs \<and>
                    candidates r = slice0 (limit_param sq) (sort_desc matchScore cs) \<and>
                    totalMatches r = length cs \<and>
                    issued = SelectSkill # SelectEmployee (department_param sq)
                               # map (\<lambda>emp. SelectHasSkill (employee_id emp)) emps)"
    by blast
  have u: "useCandidateSearch env sq = (issued, r)"
    using assms(1) by (rule useCandidateSearch_success)
  show ?thesis
  proof (cases "rs = []")
    case True
    with b have "candidates r = []" "totalMatches r = 0" by simp_all
    with a True u show ?thesis
      apply (rule_tac x = qEmb in exI)
      apply (rule_tac x = allSkills in exI)
      apply (rule_tac x = rs in exI)
      apply (rule_tac x = "[]" in exI)
      apply (rule_tac x = "[]" in exI)
      apply (rule_tac x = "[]" in exI)
      apply simp
      done
  next
    case False
    with b obtain emps cs where
      d: "select_employee env (department_param sq) = Inr emps"
         "map employee cs = filter (has_match env rs) emps"
         "candidates r = slice0 (limit_param sq) (sort_desc matchScore cs)"
         "totalMatches r = length cs"
         "list_all (scored_as env qEmb rs) cs"
      by auto
    from assms(2) d(3) have
      "candidates r = take (nat (case limit sq of None \<Rightarrow> 10 | Some l \<Rightarrow> l))
                        (sort_desc matchScore cs)"
      by (simp add: limit_param_def slice0_nonneg)
    with a False d(1,2,4,5) u show ?thesis
      apply (rule_tac x = qEmb in exI)
      apply (rule_tac x = allSkills in exI)
      apply (rule_tac x = rs in exI)
      apply (rule_tac x = emps in exI)
      apply (rule_tac x = cs in exI)
      apply (rule_tac x = "sort_desc matchScore cs" in exI)
      apply (simp add: sorted_sort_desc sort_desc_stable mset_sort_desc)
      apply (simp add: sort_desc_def)
      done
  qed
qed

theorem candidates_selected_ranked_truncated_witness:
  "search_try demo_env demo_query =
     ([SelectSkill, SelectEmployee None, SelectHasSkill ''e3'', SelectHasSkill ''e2'',
       SelectHasSkill ''e1''],
      Inr \<lparr>candidates = [ann_match, bob_match], queryEmbedding = Some [1, 0],
           totalMatches = 2, processingTimeMs = 7\<rparr>) \<and>
   (\<exists>cs ranked.
      map employee cs =
        filter (has_match demo_env demo_relevant) [cy_employee, bob_employee, ann_employee] \<and>
      list_all (scored_as demo_env [1, 0] demo_relevant) cs \<and>
      mset ranked = mset cs \<and>
      sorted_wrt (\<lambda>a b. matchScore b \<le> matchScore a) ranked \<and>
      [ann_match, bob_match] = take 10 ranked \<and> length ranked = 2) \<and>
   filter (has_match demo_env demo_relevant) [cy_employee, bob_employee, ann_employee]
     = [bob_employee, ann_employee]"
proof -
  have l: "0 \<le> (case limit demo_query of None \<Rightarrow> 10 | Some l \<Rightarrow> l)"
    "nat (case limit demo_query of None \<Rightarrow> 10 | Some l \<Rightarrow> l) = 10"
    by (simp_all add: demo_query_def)
  have n: "demo_relevant \<noteq> []" by (simp add: demo_relevant_def)
  have h: "filter (has_match demo_env demo_relevant) [cy_employee, bob_employee, ann_employee]
             = [bob_employee, ann_employee]"
    by (simp add: has_match_def demo_env_fields demo_employee_fields matched_edges_def
        demo_relevant_def demo_skill_fields ann_edges_def bob_edges_def cy_edges_def)
  from candidates_selected_ranked_truncated [OF demo_search_try l(1)]
  obtain qEmb allSkills rs emps cs ranked where
    "generateEmbedding demo_env (query demo_query) = Inr qEmb"
    "select_skill demo_env = Inr allSkills"
    "relevant_skills qEmb allSkills = Inr rs"
    "rs = [] \<and> emps = [] \<or>
       rs \<noteq> [] \<and> select_employee demo_env (department_param demo_query) = Inr emps"
    and r: "map employee cs = filter (has_match demo_env rs) emps"
      "list_all (scored_as demo_env qEmb rs) cs"
      "mset ranked = mset cs"
      "sorted_wrt (\<lambda>a b. matchScore b \<le> matchScore a) ranked"
      "totalMatches \<lparr>candidates = [ann_match, bob_match], queryEmbedding = Some [1, 0],
           totalMatches = 2, processingTimeMs = 7\<rparr> = length ranked"
      "candidates \<lparr>candidates = [ann_match, bob_match], queryEmbedding = Some [1, 0],
           totalMatches = 2, processingTimeMs = 7\<rparr> =
         take (nat (case limit demo_query of None \<Rightarrow> 10 | Some l \<Rightarrow> l)) ranked"
    by blast
  then have "qEmb = [1, 0]" "rs = demo_relevant"
    "emps = [cy_employee, bob_employee, ann_employee]"
    using demo_relevant_skills n by (auto simp: demo_env_fields)
  with r l(2) have "map employee cs =
        filter (has_match demo_env demo_relevant) [cy_employee, bob_employee, ann_employee] \<and>
      list_all (scored_as demo_env [1, 0] demo_relevant) cs \<and>
      mset ranked = mset cs \<and>
      sorted_wrt (\<lambda>a b. matchScore b \<le> matchScore a) ranked \<and>
      [ann_match, bob_match] = take 10 ranked \<and> length ranked = 2"
    by simp
  with demo_search_try h show ?thesis by blast
qed

lemma search_try_shortcut:
  assumes "generateEmbedding env (query sq) = Inr qEmb" "select_skill env = Inr allSkills"
    "relevant_skills qEmb allSkills = Inr []"
  shows "search_try env sq =
           ([SelectSkill],
            Inr \<lparr>candidates = [], queryEmbedding = Some qEmb, totalMatches = 0,
                 processingTimeMs = endTime env - startTime env\<rparr>)"
  using assms by (auto simp: search_try_def)

text \<open>
  C7. When the relevant-skill set is empty, the search returns an empty \<open>candidates\<close> list
  and \<open>totalMatches = 0\<close> after the skill query alone: the employee store is not queried,
  and the result does not depend on what the employee and edge tables hold.
\<close>

theorem shortcut_when_no_relevant_skill:
  assumes "generateEmbedding env (query sq) = Inr qEmb" "select_skill env = Inr allSkills"
    "relevant_skills qEmb allSkills = Inr []"
  shows "useCandidateSearch env sq =
           ([SelectSkill],
            \<lparr>candidates = [], queryEmbedding = Some qEmb, totalMatches = 0,
             processingTimeMs = endTime env - startTime env\<rparr>) \<and>
         (\<forall>employeeTable edgeTable.
            useCandidateSearch
              (env\<lparr>select_employee := employeeTable, select_has_skill := edgeTable\<rparr>) sq
            = useCandidateSearch env sq)"
proof (intro conjI allI)
  show here: "useCandidateSearch env sq =
           ([SelectSkill],
            \<lparr>candidates = [], queryEmbedding = Some qEmb, totalMatches = 0,
             processingTimeMs = endTime env - startTime env\<rparr>)"
    unfolding useCandidateSearch_def by (simp add: search_try_shortcut [OF assms])
  fix employeeTable edgeTable
  let ?env = "env\<lparr>select_employee := employeeTable, select_has_skill := edgeTable\<rparr>"
  have "generateEmbedding ?env (query sq) = Inr qEmb" "select_skill ?env = Inr allSkills"
    using assms by simp_all
  from search_try_shortcut [OF this assms(3)]
  have "useCandidateSearch ?env sq =
           ([SelectSkill],
            \<lparr>candidates = [], queryEmbedding = Some qEmb, totalMatches = 0,
             processingTimeMs = endTime env - startTime env\<rparr>)"
    unfolding useCandidateSearch_def by simp
  with here show "useCandidateSearch ?env sq = useCandidateSearch env sq" by simp
qed

lemma sparse_relevant_skills: "relevant_skills [1, 0] [coq_skill, go_skill] = Inr []"
  by (simp add: relevant_skills_def skill_relevance_def demo_skill_fields demo_cosines
      sort_desc_def)

theorem shortcut_when_no_relevant_skill_witness:
  "useCandidateSearch sparse_env demo_query =
     ([SelectSkill],
      \<lparr>candidates = [], queryEmbedding = Some [1, 0], totalMatches = 0, processingTimeMs = 7\<rparr>) \<and>
   useCandidateSearch
     (sparse_env\<lparr>select_employee := (\<lambda>d. Inl StoreFailure),
                  select_has_skill := (\<lambda>i. Inl StoreFailure)\<rparr>) demo_query
   = useCandidateSearch sparse_env demo_query"
proof -
  have "generateEmbedding sparse_env (query demo_query) = Inr [1, 0]"
    "select_skill sparse_env = Inr [coq_skill, go_skill]"
    "endTime sparse_env - startTime sparse_env = 7"
    by (simp_all add: sparse_env_def demo_env_fields)
  with shortcut_when_no_relevant_skill [OF this(1,2) sparse_relevant_skills]
  show ?thesis by simp
qed

lemma score_skills_sound:
  "score_skills qEmb ss = Inr scored \<Longrightarrow>
     map skill scored = ss \<and>
     (\<forall>s\<in>set scored. skill_relevance qEmb (skill s) = Inr (relevance s))"
proof (induction ss arbitrary: scored)
  case Nil
  then show ?case by simp
next
  case (Cons s ss)
  from Cons.prems obtain r where r: "skill_relevance qEmb s = Inr r"
    by (cases "skill_relevance qEmb s") auto
  from Cons.prems r obtain rest where rest: "score_skills qEmb ss = Inr rest"
    by (cases "score_skills qEmb ss") auto
  from Cons.prems r rest have "scored = \<lparr>skill = s, relevance = r\<rparr> # rest" by simp
  with Cons.IH [OF rest] r show ?case by simp
qed

lemma skill_relevance_cases:
  "skill_relevance qEmb s = Inr r \<Longrightarrow>
     (case skill_embedding s of
        Some v \<Rightarrow> cosineSimilarity qEmb v = Inr r
      | None \<Rightarrow> r = 0.3)"
  by (simp add: skill_relevance_def split: option.splits)

lemma skill_relevance_bounds:
  assumes "skill_relevance qEmb s = Inr r" "0.4 < r"
  shows "skill_embedding s \<noteq> None \<and> r \<le> 1"
proof (cases "skill_embedding s")
  case None
  with assms show ?thesis by (simp add: skill_relevance_def)
next
  case (Some v)
  with assms(1) have "cosineSimilarity qEmb v = Inr r" by (simp add: skill_relevance_def)
  from cosineSimilarity_bounds [OF this] Some show ?thesis by simp
qed

lemma relevant_skills_sound:
  assumes "relevant_skills qEmb allSkills = Inr rs"
  shows "\<exists>scored.
           score_skills qEmb allSkills = Inr scored \<and>
           rs = take 15 (sort_desc relevance (filter (\<lambda>s. 0.4 < relevance s) scored))"
  using assms by (cases "score_skills qEmb allSkills") (auto simp: relevant_skills_def)

lemma relevant_skills_members:
  assumes "relevant_skills qEmb allSkills = Inr rs" "r \<in> set rs"
  shows "0.4 < relevance r \<and> relevance r \<le> 1 \<and> skill_embedding (skill r) \<noteq> None"
proof -
  from relevant_skills_sound [OF assms(1)] obtain scored where
    s: "score_skills qEmb allSkills = Inr scored"
    and rs: "rs = take 15 (sort_desc relevance (filter (\<lambda>s. 0.4 < relevance s) scored))"
    by blast
  from assms(2) rs have "r \<in> set (sort_desc relevance (filter (\<lambda>s. 0.4 < relevance s) scored))"
    by (auto dest: in_set_takeD)
  then have m: "r \<in> set scored" "0.4 < relevance r"
    by (simp_all add: sort_desc_def)
  with score_skills_sound [OF s] have "skill_relevance qEmb (skill r) = Inr (relevance r)"
    by simp
  from skill_relevance_bounds [OF this m(2)] m(2) show ?thesis by simp
qed

lemma relevance_of_member:
  assumes "sid \<in> set (map (\<lambda>rs. skill_id (skill rs)) relevantSkills)"
  shows "\<exists>r\<in>set relevantSkills. relevance_of relevantSkills sid = relevance r"
proof -
  from assms obtain r where
    "find (\<lambda>rs. skill_id (skill rs) = sid) relevantSkills = Some r"
    using find_None_iff_not_mem [of sid relevantSkills]
    by (cases "find (\<lambda>rs. skill_id (skill rs) = sid) relevantSkills") auto
  moreover from this have "r \<in> set relevantSkills"
    by (auto simp: find_Some_iff)
  ultimately show ?thesis by (auto simp: relevance_of_def)
qed

lemma sum_list_between:
  fixes f :: "'a \<Rightarrow> real"
  assumes "\<forall>x\<in>set xs. 0 < f x \<and> f x \<le> k"
  shows "(\<Sum>x \<leftarrow> xs. f x) \<le> k * real (length xs) \<and> (xs \<noteq> [] \<longrightarrow> 0 < (\<Sum>x \<leftarrow> xs. f x))"
  using assms
proof (induction xs)
  case Nil
  then show ?case by simp
next
  case (Cons x xs)
  then have "(\<Sum>x \<leftarrow> xs. f x) \<le> k * real (length xs)" "0 \<le> (\<Sum>x \<leftarrow> xs. f x)"
    "0 < f x" "f x \<le> k"
    by (auto intro: sum_list_nonneg less_imp_le)
  then show ?case by (simp add: algebra_simps)
qed

lemma graph_score_spec_bounds:
  assumes rel: "\<forall>r\<in>set rs. 0.4 < relevance r \<and> relevance r \<le> 1"
    and prof: "\<forall>e\<in>set es. 1 \<le> proficiency e \<and> proficiency e \<le> 5"
  shows "graph_score_spec rs es \<le> 1.1 * real (length (matched_edges rs es)) \<and>
         (matched_edges rs es \<noteq> [] \<longrightarrow> 0 < graph_score_spec rs es)"
  unfolding graph_score_spec_def
proof (rule sum_list_between, rule ballI)
  fix e
  assume e: "e \<in> set (matched_edges rs es)"
  then have "edge_out e \<in> set (map (\<lambda>rs. skill_id (skill rs)) rs)" "e \<in> set es"
    by (simp_all add: matched_edges_def)
  with relevance_of_member [of "edge_out e" rs] rel prof
  have r: "0.4 < relevance_of rs (edge_out e)" "relevance_of rs (edge_out e) \<le> 1"
    and p: "1 \<le> proficiency e" "proficiency e \<le> 5"
    by auto
  from p have p5: "0 < proficiency e / 5" "proficiency e / 5 \<le> 1" by simp_all
  from r have "0 < relevance_of rs (edge_out e)" by simp
  with p5 have pos: "0 < proficiency e / 5 * relevance_of rs (edge_out e)"
    by simp
  have "proficiency e / 5 * relevance_of rs (edge_out e) \<le> 1 * 1"
    using p5 r by (intro mult_mono) simp_all
  with pos show "0 < proficiency e / 5 * relevance_of rs (edge_out e)
                    + (if certified e then 0.1 else 0) \<and>
               proficiency e / 5 * relevance_of rs (edge_out e)
                    + (if certified e then 0.1 else 0) \<le> 1.1"
    by simp
qed

lemma employee_semantic_bounds:
  assumes "employee_semantic qEmb emp = Inr s"
  shows "- 1 \<le> s \<and> s \<le> 1"
proof (cases "employee_embedding emp")
  case None
  with assms show ?thesis by (simp add: employee_semantic_def)
next
  case (Some v)
  with assms have "cosineSimilarity qEmb v = Inr s" by (simp add: employee_semantic_def)
  then show ?thesis by (rule cosineSimilarity_bounds)
qed

text \<open>
  C1, as the code has it. Given proficiencies from 1 to 5, every returned candidate has a
  \<open>semanticScore\<close> in \<open>[-1, 1]\<close>, a positive \<open>graphScore\<close> of at most 1.1 per matched edge,
  and \<open>matchScore = graphScore * 0.6 + semanticScore * 0.4\<close>, which lies above \<open>-0.4\<close> and is
  at most \<open>0.66\<close> per matched edge plus \<open>0.4\<close>. No score is clamped or normalised to
  \<open>[0, 1]\<close>.
\<close>

theorem candidate_score_ranges:
  assumes "c \<in> set (candidates (snd (useCandidateSearch env sq)))"
    and "\<forall>empId empSkills. select_has_skill env empId = Inr empSkills \<longrightarrow>
           (\<forall>e\<in>set empSkills. proficiency e \<in> {1, 2, 3, 4, 5})"
  shows "- 1 \<le> semanticScore c \<and> semanticScore c \<le> 1 \<and>
         0 < graphScore c \<and> graphScore c \<le> 1.1 * real (length (matchedSkills c)) \<and>
         matchScore c = graphScore c * 0.6 + semanticScore c * 0.4 \<and>
         - 0.4 < matchScore c \<and>
         matchScore c \<le> 0.66 * real (length (matchedSkills c)) + 0.4"
proof -
  from candidate_origin [OF assms(1)] obtain qEmb allSkills rs where
    rs: "relevant_skills qEmb allSkills = Inr rs" and s: "scored_as env qEmb rs c"
    by blast
  from s obtain empSkills where
    e: "select_has_skill env (employee_id (employee c)) = Inr empSkills"
       "matched_edges rs empSkills \<noteq> []"
       "employee_semantic qEmb (employee c) = Inr (semanticScore c)"
       "graphScore c = graph_score_spec rs empSkills"
       "matchScore c = graphScore c * 0.6 + semanticScore c * 0.4"
       "matchedSkills c =
          sort_desc matched_relevance
            (map (matched_detail rs) (matched_edges rs empSkills))"
    unfolding scored_as_def by (elim exE conjE)
  have rel: "\<forall>r\<in>set rs. 0.4 < relevance r \<and> relevance r \<le> 1"
    using relevant_skills_members [OF rs] by blast
  have prof: "\<forall>e\<in>set empSkills. 1 \<le> proficiency e \<and> proficiency e \<le> 5"
    using assms(2) e(1) by fastforce
  have len: "length (matchedSkills c) = length (matched_edges rs empSkills)"
    by (simp add: e(6) sort_desc_def)
  from graph_score_spec_bounds [OF rel prof] e(2,4) len have
    g: "0 < graphScore c" "graphScore c \<le> 1.1 * real (length (matchedSkills c))"
    by simp_all
  from employee_semantic_bounds [OF e(3)] have
    sem: "- 1 \<le> semanticScore c" "semanticScore c \<le> 1"
    by simp_all
  from g sem e(5) show ?thesis by simp
qed

lemma demo_proficiencies:
  "\<forall>empId empSkills. select_has_skill demo_env empId = Inr empSkills \<longrightarrow>
     (\<forall>e\<in>set empSkills. proficiency e \<in> {1, 2, 3, 4, 5})"
  by (auto simp: demo_env_def ann_edges_def bob_edges_def cy_edges_def split: if_splits)

theorem candidate_score_ranges_witness:
  "ann_match \<in> set (candidates (snd (useCandidateSearch demo_env demo_query))) \<and>
   - 1 \<le> semanticScore ann_match \<and> semanticScore ann_match \<le> 1 \<and>
   0 < graphScore ann_match \<and> graphScore ann_match \<le> 1.1 * real (length (matchedSkills ann_match)) \<and>
   - 0.4 < matchScore ann_match \<and>
   matchScore ann_match \<le> 0.66 * real (length (matchedSkills ann_match)) + 0.4"
proof -
  have m: "ann_match \<in> set (candidates (snd (useCandidateSearch demo_env demo_query)))"
    by (simp add: demo_useCandidateSearch)
  from candidate_score_ranges [OF m demo_proficiencies] m show ?thesis by simp
qed

text \<open>
  C1 fails as stated: in the example store every proficiency is 1 or 5 and every similarity
  is a cosine, yet Ann, certified at proficiency 5 in two relevant skills, has
  \<open>graphScore = 2\<close> and \<open>matchScore = 7/5\<close>, and Bob, whose embedding is opposite to the
  query, has \<open>semanticScore = -1\<close> and \<open>matchScore = -7/25\<close>.
\<close>

theorem candidate_score_ranges_counterexample:
  "list_all (\<lambda>e. proficiency e \<in> {1, 2, 3, 4, 5}) (ann_edges @ bob_edges @ cy_edges) \<and>
   candidates (snd (useCandidateSearch demo_env demo_query)) = [ann_match, bob_match] \<and>
   graphScore ann_match = 2 \<and> matchScore ann_match = 7 / 5 \<and>
   semanticScore bob_match = - 1 \<and> matchScore bob_match = - 7 / 25"
  by (simp add: demo_useCandidateSearch ann_match_def bob_match_def ann_edges_def bob_edges_def
      cy_edges_def)

text \<open>
  C3, as the code has it. The relevance of each fetched skill is the cosine similarity of the
  query embedding and the skill's embedding, or the default 0.3 when the skill has no
  embedding; the relevant set is the skills whose relevance exceeds 0.4, sorted by
  descending relevance and cut to the first 15. The default lies below the floor, so a skill
  that was never embedded is never in the relevant set.
\<close>

theorem relevant_skills_selection:
  assumes "relevant_skills qEmb allSkills = Inr rs"
  shows "\<exists>scored ranked.
           map skill scored = allSkills \<and>
           (\<forall>s\<in>set scored.
              case skill_embedding (skill s) of
                Some v \<Rightarrow> cosineSimilarity qEmb v = Inr (relevance s)
              | None \<Rightarrow> relevance s = 0.3) \<and>
           mset ranked = mset (filter (\<lambda>s. 0.4 < relevance s) scored) \<and>
           sorted_wrt (\<lambda>a b. relevance b \<le> relevance a) ranked \<and>
           rs = take 15 ranked \<and>
           (\<forall>s\<in>set rs. skill_embedding (skill s) \<noteq> None)"
proof -
  from relevant_skills_sound [OF assms] obtain scored where
    s: "score_skills qEmb allSkills = Inr scored"
    and rs: "rs = take 15 (sort_desc relevance (filter (\<lambda>s. 0.4 < relevance s) scored))"
    by blast
  let ?ranked = "sort_desc relevance (filter (\<lambda>s. 0.4 < relevance s) scored)"
  from score_skills_sound [OF s] have
    a: "map skill scored = allSkills"
    and b: "\<forall>s\<in>set scored. skill_relevance qEmb (skill s) = Inr (relevance s)"
    by simp_all
  from b have c: "\<forall>s\<in>set scored.
              case skill_embedding (skill s) of
                Some v \<Rightarrow> cosineSimilarity qEmb v = Inr (relevance s)
              | None \<Rightarrow> relevance s = 0.3"
    by (blast intro: skill_relevance_cases)
  have d: "\<forall>s\<in>set rs. skill_embedding (skill s) \<noteq> None"
    using relevant_skills_members [OF assms] by blast
  have "mset ?ranked = mset (filter (\<lambda>s. 0.4 < relevance s) scored)"
    by (rule mset_sort_desc)
  moreover have "sorted_wrt (\<lambda>a b. relevance b \<le> relevance a) ?ranked"
    by (rule sorted_sort_desc)
  ultimately show ?thesis
    using a c d rs
    apply (rule_tac x = scored in exI)
    apply (rule_tac x = ?ranked in exI)
    apply (intro conjI)
         apply assumption+
    done
qed

theorem relevant_skills_selection_witness:
  "relevant_skills [1, 0] [learning_skill, python_skill, coq_skill, go_skill] = Inr demo_relevant \<and>
   (\<exists>scored ranked.
      map skill scored = [learning_skill, python_skill, coq_skill, go_skill] \<and>
      mset ranked = mset (filter (\<lambda>s. 0.4 < relevance s) scored) \<and>
      sorted_wrt (\<lambda>a b. relevance b \<le> relevance a) ranked \<and>
      demo_relevant = take 15 ranked)"
proof -
  from relevant_skills_selection [OF demo_relevant_skills] obtain scored ranked where
    "map skill scored = [learning_skill, python_skill, coq_skill, go_skill]"
    "mset ranked = mset (filter (\<lambda>s. 0.4 < relevance s) scored)"
    "sorted_wrt (\<lambda>a b. relevance b \<le> relevance a) ranked"
    "demo_relevant = take 15 ranked"
    by (elim exE conjE)
  then have "\<exists>scored ranked.
      map skill scored = [learning_skill, python_skill, coq_skill, go_skill] \<and>
      mset ranked = mset (filter (\<lambda>s. 0.4 < relevance s) scored) \<and>
      sorted_wrt (\<lambda>a b. relevance b \<le> relevance a) ranked \<and>
      demo_relevant = take 15 ranked"
    by (intro exI conjI)
  with demo_relevant_skills show ?thesis by (rule conjI)
qed

text \<open>
  C3 fails as stated in its purpose clause: Coq was never embedded, gets relevance 0.3 and
  is not in the relevant set; Cy, who holds it certified at proficiency 5, is not a
  candidate.
\<close>

theorem relevant_skills_selection_counterexample:
  "skill_embedding coq_skill = None \<and>
   skill_relevance [1, 0] coq_skill = Inr 0.3 \<and>
   relevant_skills [1, 0] [learning_skill, python_skill, coq_skill, go_skill] = Inr demo_relevant \<and>
   coq_skill \<notin> set (map skill demo_relevant) \<and>
   select_has_skill demo_env (employee_id cy_employee) =
     Inr [\<lparr>edge_in = ''e3'', edge_out = skill_id coq_skill, proficiency = 5, certified = True\<rparr>] \<and>
   cy_employee \<notin> set (map employee (candidates (snd (useCandidateSearch demo_env demo_query))))"
  by (simp add: demo_relevant_skills demo_useCandidateSearch demo_skill_fields
      demo_employee_fields demo_env_fields skill_relevance_def cy_edges_def)
     (simp add: demo_relevant_def ann_match_def bob_match_def coq_skill_def python_skill_def
      learning_skill_def cy_employee_def
      ann_employee_def bob_employee_def)

section \<open>The force simulation: facts and claims\<close>

lemma sqrt_quarter: "sqrt (1 / 4) = 1 / 2"
  by (rule real_sqrt_unique) (simp_all add: power2_eq_square)

lemma upt_two: "[0..<2] = [0, 1]"
  by (simp add: upt_rec)

lemma repulsion_numeric:
  assumes "node_x node = Num x1" "node_y node = Num y1"
    "node_x other = Num x2" "node_y other = Num y2"
    and ne: "(x1 - x2) * (x1 - x2) + (y1 - y2) * (y1 - y2) \<noteq> 0"
  shows "repulsion node other =
           (Num ((x1 - x2) / sqrt ((x1 - x2) * (x1 - x2) + (y1 - y2) * (y1 - y2))
                 * ((if node_type node = node_type other then 2500 else 1500)
                    / ((x1 - x2) * (x1 - x2) + (y1 - y2) * (y1 - y2)))),
            Num ((y1 - y2) / sqrt ((x1 - x2) * (x1 - x2) + (y1 - y2) * (y1 - y2))
                 * ((if node_type node = node_type other then 2500 else 1500)
                    / ((x1 - x2) * (x1 - x2) + (y1 - y2) * (y1 - y2)))))"
proof -
  let ?q = "(x1 - x2) * (x1 - x2) + (y1 - y2) * (y1 - y2)"
  have "0 \<le> ?q" by simp
  with ne have q: "0 < ?q" by linarith
  then have "0 < sqrt ?q" by (rule real_sqrt_gt_zero)
  then have s: "sqrt ?q \<noteq> 0" by linarith
  have d: "jsub (Num x1) (Num x2) = Num (x1 - x2)" "jsub (Num y1) (Num y2) = Num (y1 - y2)"
    by (simp_all add: jsub_def)
  have o: "js_or (Num (sqrt ?q)) (Num 1) = Num (sqrt ?q)"
    using s by (simp only: js_or_def jsnum.inject jsnum.distinct) simp
  have r: "jsqrt (Num ?q) = Num (sqrt ?q)"
    using q by (simp only: jsqrt.simps) simp
  have v: "jdiv (Num (x1 - x2)) (Num (sqrt ?q)) = Num ((x1 - x2) / sqrt ?q)"
    "jdiv (Num (y1 - y2)) (Num (sqrt ?q)) = Num ((y1 - y2) / sqrt ?q)"
    "\<And>k. jdiv (Num k) (Num ?q) = Num (k / ?q)"
    using s ne by (simp_all only: jdiv.simps if_False)
  show ?thesis
    unfolding repulsion_def Let_def assms(1-4) d jmul.simps jadd.simps r o v ..
qed

lemma unit_direction_magnitude:
  fixes dx dy f :: real
  assumes "0 < dx * dx + dy * dy" "0 \<le> f"
  shows "sqrt ((dx / sqrt (dx * dx + dy * dy) * f)\<^sup>2 + (dy / sqrt (dx * dx + dy * dy) * f)\<^sup>2) = f"
proof -
  define s where "s = sqrt (dx * dx + dy * dy)"
  have s: "0 < s" "s * s = dx * dx + dy * dy"
    using assms(1) by (simp_all add: s_def)
  have "(dx / s * f)\<^sup>2 + (dy / s * f)\<^sup>2 = (dx * dx + dy * dy) * (f * f) / (s * s)"
    by (simp add: power2_eq_square add_divide_distrib algebra_simps)
  also have "\<dots> = (s * s) * (f * f) / (s * s)"
    by (simp only: s(2))
  also have "\<dots> = f * f"
    using s(1) by simp
  finally have "sqrt ((dx / s * f)\<^sup>2 + (dy / s * f)\<^sup>2) = sqrt (f * f)" by simp
  also have "\<dots> = f" using assms(2) by simp
  finally show ?thesis by (simp only: s_def)
qed

lemma force_le_iff:
  fixes K q :: real
  assumes "0 < q" "0 < K"
  shows "(K / q \<le> K) = (1 \<le> q)"
  using assms by (simp add: pos_divide_le_eq)

lemma one_le_sqrt_iff:
  fixes q :: real
  shows "(1 \<le> q) = (1 \<le> sqrt q)"
  using real_sqrt_le_iff [of 1 q] by simp

text \<open>
  C8, as the code has it. The repulsion on a node from another node at a different position
  points away from the other node and has magnitude \<open>K / distSq\<close>, inversely proportional to
  the squared distance, with \<open>K = 2500\<close> when both nodes have the same type and \<open>K = 1500\<close>
  otherwise. There is no distance floor: the magnitude is at most \<open>K\<close> exactly when the
  distance is at least 1, and grows without bound as the nodes approach each other.
\<close>

theorem repulsion_inverse_square:
  assumes "node_x node = Num x1" "node_y node = Num y1"
    "node_x other = Num x2" "node_y other = Num y2"
    and "(x1, y1) \<noteq> (x2, y2)"
  shows "let dx = x1 - x2; dy = y1 - y2; distSq = dx * dx + dy * dy; dist = sqrt distSq;
             K = (if node_type node = node_type other then 2500 else 1500);
             force = K / distSq
         in 0 < dist \<and>
            repulsion node other = (Num (dx / dist * force), Num (dy / dist * force)) \<and>
            sqrt ((dx / dist * force)\<^sup>2 + (dy / dist * force)\<^sup>2) = K / dist\<^sup>2 \<and>
            (force \<le> K) = (1 \<le> dist)"
proof -
  let ?dx = "x1 - x2" and ?dy = "y1 - y2"
  let ?q = "?dx * ?dx + ?dy * ?dy"
  let ?K = "if node_type node = node_type other then 2500 else 1500 :: real"
  from assms(5) have "?dx \<noteq> 0 \<or> ?dy \<noteq> 0" by auto
  then have ne: "?q \<noteq> 0"
    by (auto simp: add_nonneg_eq_0_iff)
  have "0 \<le> ?q" by simp
  with ne have q: "0 < ?q" by linarith
  then have d: "0 < sqrt ?q" by simp
  have K: "0 < ?K" by simp
  have r: "repulsion node other = (Num (?dx / sqrt ?q * (?K / ?q)), Num (?dy / sqrt ?q * (?K / ?q)))"
    by (rule repulsion_numeric [OF assms(1-4) ne])
  have f: "0 \<le> ?K / ?q" using q K by simp
  have m: "sqrt ((?dx / sqrt ?q * (?K / ?q))\<^sup>2 + (?dy / sqrt ?q * (?K / ?q))\<^sup>2) = ?K / ?q"
    using unit_direction_magnitude [OF q f] .
  have sq: "(sqrt ?q)\<^sup>2 = ?q" using q by simp
  have "(?K / ?q \<le> ?K) = (1 \<le> ?q)"
    by (rule force_le_iff [OF q K])
  also have "\<dots> = (1 \<le> sqrt ?q)"
    by (rule one_le_sqrt_iff)
  finally have b: "(?K / ?q \<le> ?K) = (1 \<le> sqrt ?q)" .
  show ?thesis
    unfolding Let_def using d r m b by (simp only: sq)
qed

theorem repulsion_inverse_square_witness:
  "repulsion (node_at ''a'' SkillNode 0 0) (node_at ''b'' EmployeeNode 3 4)
     = (Num (- 3 / 5 * (1500 / 25)), Num (- 4 / 5 * (1500 / 25)))"
proof -
  have "((0::real), (0::real)) \<noteq> (3, 4)" by simp
  from repulsion_inverse_square [OF _ _ _ _ this,
      of "node_at ''a'' SkillNode 0 0" "node_at ''b'' EmployeeNode 3 4"]
  show ?thesis by (simp add: node_at_def Let_def)
qed

text \<open>
  C8 fails as stated: two nodes of the same type half a unit apart repel with magnitude
  \<open>2500 / 0.25 = 10000\<close>, four times the repulsion constant; the distance is not raised to 1.
\<close>

theorem repulsion_inverse_square_counterexample:
  "repulsion (node_at ''a'' SkillNode 0 0) (node_at ''b'' SkillNode (1 / 2) 0)
     = (Num (- 10000), Num 0)"
  by (simp add: repulsion_def node_at_def jsub_def js_or_def Let_def sqrt_quarter)

text \<open>
  C9. After every tick each node that is not dragged should lie inside the viewport inset by
  the 40-unit margin. The code breaks this for two free nodes at the same position, here in
  the 800 by 600 viewport: \<open>distSq\<close> is 0, \<open>force\<close> is \<open>Infinity\<close>, the direction is
  \<open>0 / 1\<close>, and \<open>0 * Infinity\<close> is \<open>NaN\<close>. The velocity and the position of both nodes
  are \<open>NaN\<close> after the tick, every comparison of the bounce is false, and neither node is
  inside the viewport.
\<close>

theorem simulateStep_coincident_nodes:
  "simulateStep None (Some (800, 600)) []
     [node_at ''a'' SkillNode 100 100, node_at ''b'' SkillNode 100 100]
   = [\<lparr>node_id = ''a'', node_type = SkillNode, node_x = NaN, node_y = NaN,
        node_vx = NaN, node_vy = NaN\<rparr>,
      \<lparr>node_id = ''b'', node_type = SkillNode, node_x = NaN, node_y = NaN,
        node_vx = NaN, node_vy = NaN\<rparr>]"
  by (simp add: simulateStep_def upt_two step_node_def repulsion_loop_def repulsion_def
      node_at_def jsub_def js_or_def Let_def signed_inf_def bounce_def jgt_def)

lemma bounce_range:
  assumes "2 * margin \<le> extent"
  shows "fst (bounce margin extent (p, v)) = NaN \<or>
         in_range margin (extent - margin) (fst (bounce margin extent (p, v)))"
  using assms by (cases p) (auto simp: bounce_def jgt_def in_range_def)

lemma bounce_low:
  assumes "2 * margin \<le> extent" "a < margin"
  shows "bounce margin extent (Num a, v) = (Num margin, jmul v (Num (- 0.5)))"
  using assms by (simp add: bounce_def jgt_def)

lemma bounce_high:
  assumes "2 * margin \<le> extent" "extent - margin < a"
  shows "bounce margin extent (Num a, v) = (Num (extent - margin), jmul v (Num (- 0.5)))"
  using assms by (simp add: bounce_def jgt_def)

lemma bounce_inside:
  assumes "margin \<le> a" "a \<le> extent - margin"
  shows "bounce margin extent (Num a, v) = (Num a, v)"
  using assms by (simp add: bounce_def jgt_def)

lemma length_step_node [simp]:
  "length (step_node draggingNode width height edges j nodes) = length nodes"
  by (simp add: step_node_def Let_def split: prod.splits)

lemma nth_step_node_other:
  "i \<noteq> j \<Longrightarrow> step_node draggingNode width height edges j nodes ! i = nodes ! i"
  by (simp add: step_node_def Let_def split: prod.splits)

lemma step_node_range:
  assumes "i < length nodes" "draggingNode \<noteq> Some (node_id (nodes ! i))"
    "80 \<le> width" "80 \<le> height"
  shows "(node_x (step_node draggingNode width height edges i nodes ! i) = NaN \<or>
          in_range 40 (width - 40) (node_x (step_node draggingNode width height edges i nodes ! i))) \<and>
         (node_y (step_node draggingNode width height edges i nodes ! i) = NaN \<or>
          in_range 40 (height - 40) (node_y (step_node draggingNode width height edges i nodes ! i)))"
proof -
  have w: "2 * 40 \<le> width" and h: "2 * 40 \<le> height" using assms(3,4) by simp_all
  obtain fx fy where f:
    "fold (attraction nodes (nodes ! i)) edges
       (repulsion_loop nodes i
          (jmul (jsub (Num (width / 2)) (node_x (nodes ! i))) (Num 0.0005),
           jmul (jsub (Num (height / 2)) (node_y (nodes ! i))) (Num 0.0005))) = (fx, fy)"
    by (meson surj_pair)
  let ?vx1 = "jmul (jadd (node_vx (nodes ! i)) fx) (Num 0.85)"
  let ?vy1 = "jmul (jadd (node_vy (nodes ! i)) fy) (Num 0.85)"
  let ?vel = "jsqrt (jadd (jmul ?vx1 ?vx1) (jmul ?vy1 ?vy1))"
  let ?vx2 = "if jgt ?vel (Num 5) then jmul (jdiv ?vx1 ?vel) (Num 5) else ?vx1"
  let ?vy2 = "if jgt ?vel (Num 5) then jmul (jdiv ?vy1 ?vel) (Num 5) else ?vy1"
  obtain x' vx' where bx: "bounce 40 width (jadd (node_x (nodes ! i)) ?vx2, ?vx2) = (x', vx')"
    by (meson surj_pair)
  obtain y' vy' where by': "bounce 40 height (jadd (node_y (nodes ! i)) ?vy2, ?vy2) = (y', vy')"
    by (meson surj_pair)
  have "step_node draggingNode width height edges i nodes =
          nodes[i := (nodes ! i)\<lparr>node_x := x', node_y := y', node_vx := vx', node_vy := vy'\<rparr>]"
    unfolding step_node_def Let_def f prod.case bx by'
    using assms(2) by simp
  with assms(1) have
    "node_x (step_node draggingNode width height edges i nodes ! i) = x'"
    "node_y (step_node draggingNode width height edges i nodes ! i) = y'"
    by simp_all
  moreover from bounce_range [OF w, of "jadd (node_x (nodes ! i)) ?vx2" ?vx2]
  have "x' = NaN \<or> in_range 40 (width - 40) x'" by (simp only: bx fst_conv)
  moreover from bounce_range [OF h, of "jadd (node_y (nodes ! i)) ?vy2" ?vy2]
  have "y' = NaN \<or> in_range 40 (height - 40) y'" by (simp only: by' fst_conv)
  ultimately show ?thesis by simp
qed

lemma fold_step_node_other:
  "i \<notin> set js \<Longrightarrow>
     fold (step_node draggingNode width height edges) js nodes ! i = nodes ! i \<and>
     length (fold (step_node draggingNode width height edges) js nodes) = length nodes"
proof (induction js arbitrary: nodes)
  case Nil
  then show ?case by simp
next
  case (Cons j js)
  then have "i \<noteq> j" "i \<notin> set js" by auto
  with Cons.IH [of "step_node draggingNode width height edges j nodes"]
  show ?case by (simp add: nth_step_node_other)
qed

text \<open>
  What the bounce does achieve: after a tick, a coordinate of a node that is not dragged is
  either \<open>NaN\<close> or inside the viewport inset by the margin, for a viewport of at least 80
  by 80.
\<close>

lemma simulateStep_range:
  assumes "i < length nodes" "draggingNode \<noteq> Some (node_id (nodes ! i))"
    "canvas = Some (w, h)" "80 \<le> w" "80 \<le> h"
  shows "(node_x (simulateStep draggingNode canvas edges nodes ! i) = NaN \<or>
          in_range 40 (real w - 40) (node_x (simulateStep draggingNode canvas edges nodes ! i))) \<and>
         (node_y (simulateStep draggingNode canvas edges nodes ! i) = NaN \<or>
          in_range 40 (real h - 40) (node_y (simulateStep draggingNode canvas edges nodes ! i)))"
proof -
  let ?step = "step_node draggingNode (real w) (real h) edges"
  let ?before = "fold ?step [0..<i] nodes"
  have "[0..<length nodes] = [0..<i] @ [i..<length nodes]"
    using assms(1) upt_add_eq_append [of 0 i "length nodes - i"] by simp
  also have "[i..<length nodes] = i # [Suc i..<length nodes]"
    using assms(1) by (rule upt_conv_Cons)
  finally have split: "[0..<length nodes] = [0..<i] @ i # [Suc i..<length nodes]" .
  have s: "simulateStep draggingNode canvas edges nodes
           = fold ?step [Suc i..<length nodes] (?step i ?before)"
    using assms(1,3,4,5) by (auto simp: simulateStep_def split Let_def)
  have b: "?before ! i = nodes ! i" "length ?before = length nodes"
    using fold_step_node_other [of i "[0..<i]" draggingNode "real w" "real h" edges nodes]
    by simp_all
  have a: "fold ?step [Suc i..<length nodes] (?step i ?before) ! i = ?step i ?before ! i"
    using fold_step_node_other [of i "[Suc i..<length nodes]" draggingNode "real w" "real h"
        edges "?step i ?before"]
    by simp
  have "i < length ?before" "draggingNode \<noteq> Some (node_id (?before ! i))"
    "80 \<le> real w" "80 \<le> real h"
    using assms b by simp_all
  from step_node_range [OF this] show ?thesis
    by (simp only: s a)
qed

end
